theory Spec2Isabelle
  imports Main "HOL-Library.Word" "HOL-Library.Monad_Syntax"
begin

section \<open>The user microservice: store, cache, service and handlers\<close>

text \<open>
  A shallow embedding of the Go user service: the repository
  (\<^verbatim>\<open>internal/repository/user_repository.go\<close>), the Redis wrapper
  (\<^verbatim>\<open>pkg/cache/redis.go\<close>), the service (\<^verbatim>\<open>UserService\<close>) and the gRPC handlers
  (\<^verbatim>\<open>UserServer\<close>). Everything outside the process is a field of one record, the
  \<open>world\<close>: the \<open>users\<close> table and its sequence, the Redis keyspace, the wall clock, and the
  outcomes of the coming network round trips. Every Go method becomes a function from the
  world to its result and the new world; a Go \<open>(value, error)\<close> pair becomes a sum with the
  error on the left. Calls to \<open>slog\<close> only print and are left out.
\<close>

subsection \<open>Integers and formatting\<close>

text \<open>
  Go's \<open>int\<close> is 64 bits wide on the platforms the service is built for, and its
  arithmetic wraps around; the protobuf fields \<open>page\<close>, \<open>page_size\<close> and \<open>total\<close> are
  \<open>int32\<close>. Comparison, \<open>min\<close> and \<open>max\<close> are signed. Identifiers (\<open>int64\<close>) are never
  computed with by the Go code, only passed on and printed, and are modelled as \<open>int\<close>; so are
  instants of time, counted in nanoseconds since the Unix epoch.
\<close>

type_synonym go_int = "64 word"
type_synonym int32 = "32 word"

definition go_min :: "go_int \<Rightarrow> go_int \<Rightarrow> go_int" where
  "go_min a b = (if b <s a then b else a)"

definition go_max :: "go_int \<Rightarrow> go_int \<Rightarrow> go_int" where
  "go_max a b = (if a <s b then b else a)"

text \<open>\<open>%d\<close> of \<open>fmt.Sprintf\<close>: the decimal digits, most significant first, after a minus
  sign for a negative number.\<close>

definition digit :: "nat \<Rightarrow> char" where
  "digit d = char_of (48 + d)"

function utoa :: "nat \<Rightarrow> string" where
  "utoa n = (if n < 10 then [digit n] else utoa (n div 10) @ [digit (n mod 10)])"
  by pat_completeness auto
termination
  by (relation "measure id") auto

declare utoa.simps [simp del]

definition itoa :: "int \<Rightarrow> string" where
  "itoa i = (if i < 0 then CHR ''-'' # utoa (nat (- i)) else utoa (nat i))"

text \<open>\<open>fmt.Sprintf("user:%d", id)\<close>, the per-id cache key.\<close>

definition Sprintf_user :: "int \<Rightarrow> string" where
  "Sprintf_user ident = ''user:'' @ itoa ident"

subsection \<open>The user entity and its errors\<close>

text \<open>
  \<open>model.User\<close>. Its declaration (\<^verbatim>\<open>internal/model/user.go\<close>) is not among the
  sources; the fields and their types are those the repository scans into, the service
  assigns and the handlers copy: \<open>ID int64\<close>, \<open>Email\<close> and \<open>Name string\<close>, \<open>CreatedAt\<close>
  and \<open>UpdatedAt time.Time\<close>.
\<close>

record User =
  ID :: int
  Email :: string
  Name :: string
  CreatedAt :: int
  UpdatedAt :: int

text \<open>
  What a statement sent to PostgreSQL can fail with, given the table of
  \<^verbatim>\<open>migrations/init.sql\<close>: no row for \<open>Scan\<close> (\<open>pgx.ErrNoRows\<close>), the \<open>UNIQUE\<close>
  constraint on \<open>email\<close>, a value longer than \<open>VARCHAR(255)\<close>, a negative \<open>LIMIT\<close> or
  \<open>OFFSET\<close>, or no answer from the server at all. An \<open>error\<close> is such a cause under the
  prefixes that \<open>fmt.Errorf("...: %w", err)\<close> puts in front of it.
\<close>

datatype pg_error =
  ErrNoRows | UniqueViolation | ValueTooLong | NegativeLimit | NegativeOffset | ConnFailed

datatype error = Pg pg_error | Errorf string error

text \<open>What a call to Redis can fail with: \<open>redis.Nil\<close> for an absent key, or no answer.\<close>

datatype redis_error = redis_Nil | redis_Down

subsection \<open>The world\<close>

text \<open>
  Every round trip to the store or to the cache is appended to \<open>calls\<close>, in order, whether
  it succeeds or not. \<open>db_faults\<close> and \<open>cache_faults\<close> give the outcome of the coming round
  trips to each server, one flag per call (\<open>True\<close>: the call gets no answer and has no
  effect); an empty list is a server that answers from now on. \<open>ticks\<close> is by how much the
  clock moves after each coming reading.
\<close>

datatype call =
    DbCreate User | DbGetByID int | DbGetByEmail string | DbList go_int go_int | DbCount
  | DbUpdate User | DbDelete int
  | CacheGet string | CacheSet string string nat | CacheDelete string

record world =
  users :: "User list"
  users_id_seq :: int
  db_faults :: "bool list"
  cache :: "string \<rightharpoonup> string \<times> nat"
  cache_faults :: "bool list"
  now :: int
  ticks :: "int list"
  calls :: "call list"

definition time_Now :: "world \<Rightarrow> int \<times> world" where
  "time_Now w =
     (now w, case ticks w of [] \<Rightarrow> w | d # ds \<Rightarrow> w\<lparr>now := now w + d, ticks := ds\<rparr>)"

definition faulted :: "bool list \<Rightarrow> bool" where
  "faulted fs = (case fs of [] \<Rightarrow> False | f # _ \<Rightarrow> f)"

definition db_call :: "call \<Rightarrow> world \<Rightarrow> bool \<times> world" where
  "db_call c w =
     (faulted (db_faults w), w\<lparr>db_faults := drop 1 (db_faults w), calls := calls w @ [c]\<rparr>)"

definition cache_call :: "call \<Rightarrow> world \<Rightarrow> bool \<times> world" where
  "cache_call c w =
     (faulted (cache_faults w),
      w\<lparr>cache_faults := drop 1 (cache_faults w), calls := calls w @ [c]\<rparr>)"

text \<open>The calls to the cache among a list of calls, and those to the store.\<close>

fun is_cache_call :: "call \<Rightarrow> bool" where
  "is_cache_call (CacheGet k) = True"
| "is_cache_call (CacheSet k v t) = True"
| "is_cache_call (CacheDelete k) = True"
| "is_cache_call c = False"

definition cache_calls :: "call list \<Rightarrow> call list" where
  "cache_calls cs = filter is_cache_call cs"

definition db_calls :: "call list \<Rightarrow> call list" where
  "db_calls cs = filter (\<lambda>c. \<not> is_cache_call c) cs"

subsection \<open>The cache: \<^verbatim>\<open>pkg/cache/redis.go\<close>\<close>

text \<open>An entry is a value and the expiration it was set with, in seconds. \<open>Get\<close> hands back
  Go's pair: the value (empty on error) and the error.\<close>

definition Redis_Get :: "string \<Rightarrow> world \<Rightarrow> (string \<times> redis_error option) \<times> world" where
  "Redis_Get key w =
     (let (down, w1) = cache_call (CacheGet key) w in
      if down then (([], Some redis_Down), w1)
      else case cache w1 key of
             None \<Rightarrow> (([], Some redis_Nil), w1)
           | Some (v, ttl) \<Rightarrow> ((v, None), w1))"

definition Redis_Set :: "string \<Rightarrow> string \<Rightarrow> nat \<Rightarrow> world \<Rightarrow> redis_error option \<times> world" where
  "Redis_Set key v expiration w =
     (let (down, w1) = cache_call (CacheSet key v expiration) w in
      if down then (Some redis_Down, w1)
      else (None, w1\<lparr>cache := (cache w1)(key \<mapsto> (v, expiration))\<rparr>))"

definition Redis_Delete :: "string \<Rightarrow> world \<Rightarrow> redis_error option \<times> world" where
  "Redis_Delete key w =
     (let (down, w1) = cache_call (CacheDelete key) w in
      if down then (Some redis_Down, w1)
      else (None, w1\<lparr>cache := (cache w1)(key := None)\<rparr>))"

subsection \<open>The store: the \<open>users\<close> table and \<^verbatim>\<open>user_repository.go\<close>\<close>

text \<open>
  The table of \<^verbatim>\<open>migrations/init.sql\<close>: \<open>id BIGSERIAL PRIMARY KEY\<close>,
  \<open>email VARCHAR(255) UNIQUE NOT NULL\<close>, \<open>name VARCHAR(255) NOT NULL\<close> and the two
  timestamps. \<open>users\<close> holds the rows in the order of their insertion. A Go string is never
  \<open>NULL\<close>, so \<open>NOT NULL\<close> refuses nothing the repository sends; the empty string is a
  value like any other. The sequence moves on every \<open>INSERT\<close> the server runs, also one that
  a constraint then refuses. A \<open>TIMESTAMP WITH TIME ZONE\<close> column holds microseconds: of
  an instant written to the table (pgx encodes \<open>t.Unix()*1000000 + t.Nanosecond()/1000\<close>)
  the nanoseconds below the microsecond are cut off, while the Go value that was sent
  keeps them.
\<close>

definition pg_timestamptz :: "int \<Rightarrow> int" where
  "pg_timestamptz t = (t div 1000) * 1000"

definition sql_insert :: "User \<Rightarrow> world \<Rightarrow> (pg_error + int) \<times> world" where
  "sql_insert u w =
     (let ident = users_id_seq w + 1; w1 = w\<lparr>users_id_seq := ident\<rparr> in
      if 255 < length (Email u) \<or> 255 < length (Name u) then (Inl ValueTooLong, w1)
      else if Email u \<in> set (map Email (users w)) then (Inl UniqueViolation, w1)
      else (Inr ident,
            w1\<lparr>users := users w @
                 [u\<lparr>ID := ident, CreatedAt := pg_timestamptz (CreatedAt u),
                    UpdatedAt := pg_timestamptz (UpdatedAt u)\<rparr>]\<rparr>))"

definition sql_update :: "User \<Rightarrow> User list \<Rightarrow> pg_error + User list" where
  "sql_update u us =
     (if 255 < length (Email u) \<or> 255 < length (Name u) then Inl ValueTooLong
      else if (\<exists>r \<in> set us. ID r = ID u) \<and> (\<exists>r \<in> set us. ID r \<noteq> ID u \<and> Email r = Email u)
      then Inl UniqueViolation
      else Inr (map (\<lambda>r. if ID r = ID u
                           then r\<lparr>Email := Email u, Name := Name u,
                                  UpdatedAt := pg_timestamptz (UpdatedAt u)\<rparr>
                           else r) us))"

text \<open>\<open>ORDER BY created_at DESC LIMIT $1 OFFSET $2\<close>; PostgreSQL refuses a negative
  \<open>OFFSET\<close> or \<open>LIMIT\<close>.\<close>

definition sql_list :: "go_int \<Rightarrow> go_int \<Rightarrow> User list \<Rightarrow> pg_error + User list" where
  "sql_list limit offset us =
     (if offset <s 0 then Inl NegativeOffset
      else if limit <s 0 then Inl NegativeLimit
      else Inr (take (nat (sint limit))
                  (drop (nat (sint offset)) (sort_key (\<lambda>u. - CreatedAt u) us))))"

text \<open>\<open>Create\<close> writes the assigned id through the pointer it is given: here it returns the
  user with its \<open>ID\<close> set.\<close>

definition UserRepository_Create :: "User \<Rightarrow> world \<Rightarrow> (error + User) \<times> world" where
  "UserRepository_Create user w =
     (let (down, w1) = db_call (DbCreate user) w in
      if down then (Inl (Errorf ''failed to create user'' (Pg ConnFailed)), w1)
      else case sql_insert user w1 of
             (Inl e, w2) \<Rightarrow> (Inl (Errorf ''failed to create user'' (Pg e)), w2)
           | (Inr ident, w2) \<Rightarrow> (Inr (user\<lparr>ID := ident\<rparr>), w2))"

definition UserRepository_GetByID :: "int \<Rightarrow> world \<Rightarrow> (error + User) \<times> world" where
  "UserRepository_GetByID ident w =
     (let (down, w1) = db_call (DbGetByID ident) w in
      if down then (Inl (Errorf ''user not found'' (Pg ConnFailed)), w1)
      else case find (\<lambda>u. ID u = ident) (users w1) of
             None \<Rightarrow> (Inl (Errorf ''user not found'' (Pg ErrNoRows)), w1)
           | Some user \<Rightarrow> (Inr user, w1))"

definition UserRepository_GetByEmail :: "string \<Rightarrow> world \<Rightarrow> (error + User) \<times> world" where
  "UserRepository_GetByEmail email w =
     (let (down, w1) = db_call (DbGetByEmail email) w in
      if down then (Inl (Errorf ''user not found'' (Pg ConnFailed)), w1)
      else case find (\<lambda>u. Email u = email) (users w1) of
             None \<Rightarrow> (Inl (Errorf ''user not found'' (Pg ErrNoRows)), w1)
           | Some user \<Rightarrow> (Inr user, w1))"

text \<open>
  \<open>List\<close> checks the error of \<open>Query\<close> only, which is that of a server that cannot be
  reached. What the server refuses while it runs the statement, a negative \<open>OFFSET\<close> or
  \<open>LIMIT\<close>, pgx reports through \<open>rows.Err()\<close>, and \<open>List\<close> never reads it: \<open>rows.Next()\<close>
  is false at once, the loop appends nothing, and \<open>List\<close> returns no users and no error.
\<close>

definition UserRepository_List :: "go_int \<Rightarrow> go_int \<Rightarrow> world \<Rightarrow> (error + User list) \<times> world" where
  "UserRepository_List limit offset w =
     (let (down, w1) = db_call (DbList limit offset) w in
      if down then (Inl (Errorf ''failed to list users'' (Pg ConnFailed)), w1)
      else case sql_list limit offset (users w1) of
             Inl e \<Rightarrow> (Inr [], w1)
           | Inr us \<Rightarrow> (Inr us, w1))"

definition UserRepository_Count :: "world \<Rightarrow> (error + go_int) \<times> world" where
  "UserRepository_Count w =
     (let (down, w1) = db_call DbCount w in
      if down then (Inl (Errorf ''failed to count users'' (Pg ConnFailed)), w1)
      else (Inr (of_nat (length (users w1))), w1))"

definition UserRepository_Update :: "User \<Rightarrow> world \<Rightarrow> error option \<times> world" where
  "UserRepository_Update user w =
     (let (down, w1) = db_call (DbUpdate user) w in
      if down then (Some (Errorf ''failed to update user'' (Pg ConnFailed)), w1)
      else case sql_update user (users w1) of
             Inl e \<Rightarrow> (Some (Errorf ''failed to update user'' (Pg e)), w1)
           | Inr us \<Rightarrow> (None, w1\<lparr>users := us\<rparr>))"

text \<open>\<open>DELETE FROM users WHERE id = $1\<close> deletes the rows there are, none included.\<close>

definition UserRepository_Delete :: "int \<Rightarrow> world \<Rightarrow> error option \<times> world" where
  "UserRepository_Delete ident w =
     (let (down, w1) = db_call (DbDelete ident) w in
      if down then (Some (Errorf ''failed to delete user'' (Pg ConnFailed)), w1)
      else (None, w1\<lparr>users := filter (\<lambda>r. ID r \<noteq> ident) (users w1)\<rparr>))"

subsection \<open>The cached snapshot: \<open>json.Marshal\<close> and \<open>json.Unmarshal\<close> of a user\<close>

text \<open>
  Modelled from the spec: \<^verbatim>\<open>internal/model/user.go\<close> (the struct and its JSON tags) is
  not among the sources, and \<open>encoding/json\<close> is Go's library. The spec gives the "field set:
  id, email, name, created_at, updated_at" in "a structured encoding of the full User
  entity". The encoding here is the JSON object of these five members in this order: the
  identifier as a number, the two strings between double quotes with the double quote and
  the backslash escaped by a backslash, and each instant as the number of its nanoseconds,
  where Go writes the RFC 3339 text of the same instant. As in Go, an instant whose year is outside 0..9999 is
  not encoded: \<open>Marshal\<close> fails. \<open>Unmarshal\<close> reads back exactly this form and fails on any
  other text.
\<close>

definition is_digit :: "char \<Rightarrow> bool" where
  "is_digit c = (48 \<le> (of_char c :: nat) \<and> (of_char c :: nat) \<le> 57)"

definition digit_val :: "char \<Rightarrow> nat" where
  "digit_val c = of_char c - 48"

definition atou :: "string \<Rightarrow> nat" where
  "atou ds = foldl (\<lambda>a c. 10 * a + digit_val c) 0 ds"

definition parse_nat :: "string \<Rightarrow> (nat \<times> string) option" where
  "parse_nat s =
     (let ds = takeWhile is_digit s in
      if ds = [] then None else Some (atou ds, dropWhile is_digit s))"

definition parse_int :: "string \<Rightarrow> (int \<times> string) option" where
  "parse_int s =
     (case s of
        [] \<Rightarrow> None
      | c # r \<Rightarrow>
          if c = CHR ''-'' then map_option (\<lambda>(n, r'). (- int n, r')) (parse_nat r)
          else map_option (\<lambda>(n, r'). (int n, r')) (parse_nat s))"

fun escape :: "string \<Rightarrow> string" where
  "escape [] = []"
| "escape (c # cs) =
     (if c = CHR 0x22 \<or> c = CHR 0x5C then CHR 0x5C # c # escape cs else c # escape cs)"

definition quote :: "string \<Rightarrow> string" where
  "quote s = CHR 0x22 # escape s @ [CHR 0x22]"

text \<open>The characters of a string up to its closing quote, and what follows the quote.\<close>

fun parse_chars :: "string \<Rightarrow> (string \<times> string) option" where
  "parse_chars [] = None"
| "parse_chars (c # cs) =
     (if c = CHR 0x22 then Some ([], cs)
      else if c = CHR 0x5C then
        (case cs of
           [] \<Rightarrow> None
         | d # ds \<Rightarrow> map_option (\<lambda>(s, r). (d # s, r)) (parse_chars ds))
      else map_option (\<lambda>(s, r). (c # s, r)) (parse_chars cs))"

definition parse_string :: "string \<Rightarrow> (string \<times> string) option" where
  "parse_string s =
     (case s of [] \<Rightarrow> None | c # cs \<Rightarrow> if c = CHR 0x22 then parse_chars cs else None)"

fun expect :: "string \<Rightarrow> string \<Rightarrow> string option" where
  "expect [] s = Some s"
| "expect (p # ps) [] = None"
| "expect (p # ps) (c # cs) = (if p = c then expect ps cs else None)"

text \<open>The years 0 to 9999, in nanoseconds since the Unix epoch.\<close>

definition time_ok :: "int \<Rightarrow> bool" where
  "time_ok t = (- 62167219200 * 1000000000 \<le> t \<and> t < 253402300800 * 1000000000)"

definition json_Marshal :: "User \<Rightarrow> string option" where
  \<open>json_Marshal u =
     (if time_ok (CreatedAt u) \<and> time_ok (UpdatedAt u) then
        Some (''{"id":'' @ itoa (ID u) @
              '',"email":'' @ quote (Email u) @
              '',"name":'' @ quote (Name u) @
              '',"created_at":'' @ itoa (CreatedAt u) @
              '',"updated_at":'' @ itoa (UpdatedAt u) @ ''}'')
      else None)\<close>

definition json_Unmarshal :: "string \<Rightarrow> User option" where
  \<open>json_Unmarshal s = do {
     r \<leftarrow> expect ''{"id":'' s;
     (i, r) \<leftarrow> parse_int r;
     r \<leftarrow> expect '',"email":'' r;
     (e, r) \<leftarrow> parse_string r;
     r \<leftarrow> expect '',"name":'' r;
     (n, r) \<leftarrow> parse_string r;
     r \<leftarrow> expect '',"created_at":'' r;
     (c, r) \<leftarrow> parse_int r;
     r \<leftarrow> expect '',"updated_at":'' r;
     (u, r) \<leftarrow> parse_int r;
     if r = ''}'' \<and> time_ok c \<and> time_ok u
     then Some \<lparr>ID = i, Email = e, Name = n, CreatedAt = c, UpdatedAt = u\<rparr>
     else None
   }\<close>

subsection \<open>The service: \<open>UserService\<close>\<close>

text \<open>\<open>5*time.Minute\<close>, in seconds.\<close>

definition Minute :: nat where
  "Minute = 60"

text \<open>The struct literal reads the clock twice, once for each timestamp, in the order of
  its fields.\<close>

definition UserService_CreateUser :: "string \<Rightarrow> string \<Rightarrow> world \<Rightarrow> (error + User) \<times> world" where
  "UserService_CreateUser email name w =
     (let (t1, w1) = time_Now w;
          (t2, w2) = time_Now w1;
          user = \<lparr>ID = 0, Email = email, Name = name, CreatedAt = t1, UpdatedAt = t2\<rparr>
      in case UserRepository_Create user w2 of
           (Inl err, w3) \<Rightarrow> (Inl (Errorf ''failed to create user'' err), w3)
         | (Inr user', w3) \<Rightarrow> (Inr user', snd (Redis_Delete ''users:list'' w3)))"

definition UserService_GetUser :: "int \<Rightarrow> world \<Rightarrow> (error + User) \<times> world" where
  "UserService_GetUser ident w =
     (let cacheKey = Sprintf_user ident;
          ((cached, err), w1) = Redis_Get cacheKey w;
          hit = (if err = None \<and> cached \<noteq> [] then json_Unmarshal cached else None)
      in case hit of
           Some user \<Rightarrow> (Inr user, w1)
         | None \<Rightarrow>
             (case UserRepository_GetByID ident w1 of
                (Inl err, w2) \<Rightarrow> (Inl (Errorf ''user not found'' err), w2)
              | (Inr user, w2) \<Rightarrow>
                  (case json_Marshal user of
                     Some data \<Rightarrow> (Inr user, snd (Redis_Set cacheKey data (5 * Minute) w2))
                   | None \<Rightarrow> (Inr user, w2))))"

definition UserService_ListUsers ::
  "go_int \<Rightarrow> go_int \<Rightarrow> world \<Rightarrow> (error + User list \<times> go_int) \<times> world" where
  "UserService_ListUsers page pageSize w =
     (let offset = (page - 1) * pageSize in
      case UserRepository_List pageSize offset w of
        (Inl err, w1) \<Rightarrow> (Inl (Errorf ''failed to list users'' err), w1)
      | (Inr us, w1) \<Rightarrow>
          (case UserRepository_Count w1 of
             (Inl err, w2) \<Rightarrow> (Inl (Errorf ''failed to count users'' err), w2)
           | (Inr tot, w2) \<Rightarrow> (Inr (us, tot), w2)))"

definition UserService_UpdateUser ::
  "int \<Rightarrow> string \<Rightarrow> string \<Rightarrow> world \<Rightarrow> (error + User) \<times> world" where
  "UserService_UpdateUser ident email name w =
     (case UserRepository_GetByID ident w of
        (Inl err, w1) \<Rightarrow> (Inl (Errorf ''user not found'' err), w1)
      | (Inr user0, w1) \<Rightarrow>
          (let (t, w2) = time_Now w1;
               user = user0\<lparr>Email := email, Name := name, UpdatedAt := t\<rparr>
           in case UserRepository_Update user w2 of
                (Some err, w3) \<Rightarrow> (Inl (Errorf ''failed to update user'' err), w3)
              | (None, w3) \<Rightarrow>
                  (let cacheKey = Sprintf_user ident;
                       w4 = snd (Redis_Delete cacheKey w3);
                       w5 = snd (Redis_Delete ''users:list'' w4)
                   in (Inr user, w5))))"

definition UserService_DeleteUser :: "int \<Rightarrow> world \<Rightarrow> error option \<times> world" where
  "UserService_DeleteUser ident w =
     (case UserRepository_Delete ident w of
        (Some err, w1) \<Rightarrow> (Some (Errorf ''failed to delete user'' err), w1)
      | (None, w1) \<Rightarrow>
          (let cacheKey = Sprintf_user ident;
               w2 = snd (Redis_Delete cacheKey w1);
               w3 = snd (Redis_Delete ''users:list'' w2)
           in (None, w3)))"

subsection \<open>The handlers: \<open>UserServer\<close>\<close>

text \<open>
  The status codes of \<open>google.golang.org/grpc/codes\<close>, in their numbering. \<open>err.Error()\<close>
  is the text of an error: the prefixes in front of the cause, each followed by a colon and
  a space. The text of a cause is pgx's: \<open>pgx.ErrNoRows\<close>, or for what the server refuses
  the severity, the server's message and the \<open>SQLSTATE\<close>; the text of a failed connection
  names the server and is given here by its first words. \<open>status.Errorf(c, "...: %v", err)\<close> is the code with such a text.
\<close>

datatype codes =
    OK | Canceled | Unknown | InvalidArgument | DeadlineExceeded | NotFound | AlreadyExists
  | PermissionDenied | ResourceExhausted | FailedPrecondition | Aborted | OutOfRange
  | Unimplemented | Internal | Unavailable | DataLoss | Unauthenticated

fun pg_text :: "pg_error \<Rightarrow> string" where
  \<open>pg_text ErrNoRows = ''no rows in result set''\<close>
| \<open>pg_text UniqueViolation =
     ''ERROR: duplicate key value violates unique constraint "users_email_key" (SQLSTATE 23505)''\<close>
| \<open>pg_text ValueTooLong =
     ''ERROR: value too long for type character varying(255) (SQLSTATE 22001)''\<close>
| \<open>pg_text NegativeLimit = ''ERROR: LIMIT must not be negative (SQLSTATE 2201W)''\<close>
| \<open>pg_text NegativeOffset = ''ERROR: OFFSET must not be negative (SQLSTATE 2201X)''\<close>
| \<open>pg_text ConnFailed = ''failed to connect''\<close>

fun Error :: "error \<Rightarrow> string" where
  "Error (Pg e) = pg_text e"
| "Error (Errorf prefix e) = prefix @ '': '' @ Error e"

datatype status = Status codes string

definition status_Errorf :: "codes \<Rightarrow> string \<Rightarrow> error \<Rightarrow> status" where
  "status_Errorf c prefix err = Status c (prefix @ '': '' @ Error err)"

fun Code :: "status \<Rightarrow> codes" where
  "Code (Status c m) = c"

text \<open>
  The protobuf messages. The generated package \<open>pb\<close> is not among the sources; the
  messages have the fields the handlers read and write. \<open>page\<close>, \<open>page_size\<close> and
  \<open>total\<close> are \<open>int32\<close> (the handler converts with \<open>int(req.Page)\<close> and
  \<open>int32(total)\<close>), and the timestamps of a \<open>pb.User\<close> are Unix seconds
  (\<open>time.Time.Unix\<close>). A \<open>GetUserRequest\<close> and a \<open>DeleteUserRequest\<close> hold an \<open>Id\<close> only
  and are passed as that identifier; the reply \<open>pb.Empty\<close> is \<open>None\<close>.
\<close>

record pb_User =
  pb_Id :: int
  pb_Email :: string
  pb_Name :: string
  pb_CreatedAt :: int
  pb_UpdatedAt :: int

record CreateUserRequest =
  CreateUserRequest_Email :: string
  CreateUserRequest_Name :: string

record ListUsersRequest =
  ListUsersRequest_Page :: int32
  ListUsersRequest_PageSize :: int32

record ListUsersResponse =
  Users :: "pb_User list"
  Total :: int32

record UpdateUserRequest =
  UpdateUserRequest_Id :: int
  UpdateUserRequest_Email :: string
  UpdateUserRequest_Name :: string

definition Unix :: "int \<Rightarrow> int" where
  "Unix t = t div 1000000000"

definition pb_of_User :: "User \<Rightarrow> pb_User" where
  "pb_of_User user =
     \<lparr>pb_Id = ID user, pb_Email = Email user, pb_Name = Name user,
      pb_CreatedAt = Unix (CreatedAt user), pb_UpdatedAt = Unix (UpdatedAt user)\<rparr>"

definition UserServer_CreateUser :: "CreateUserRequest \<Rightarrow> world \<Rightarrow> (status + pb_User) \<times> world" where
  "UserServer_CreateUser req w =
     (case UserService_CreateUser (CreateUserRequest_Email req) (CreateUserRequest_Name req) w of
        (Inl err, w1) \<Rightarrow> (Inl (status_Errorf Internal ''failed to create user'' err), w1)
      | (Inr user, w1) \<Rightarrow> (Inr (pb_of_User user), w1))"

definition UserServer_GetUser :: "int \<Rightarrow> world \<Rightarrow> (status + pb_User) \<times> world" where
  "UserServer_GetUser req_Id w =
     (case UserService_GetUser req_Id w of
        (Inl err, w1) \<Rightarrow> (Inl (status_Errorf NotFound ''user not found'' err), w1)
      | (Inr user, w1) \<Rightarrow> (Inr (pb_of_User user), w1))"

definition UserServer_ListUsers ::
  "ListUsersRequest \<Rightarrow> world \<Rightarrow> (status + ListUsersResponse) \<times> world" where
  "UserServer_ListUsers req w =
     (let pageSize = go_min (scast (ListUsersRequest_PageSize req)) 100;
          page = go_max (scast (ListUsersRequest_Page req)) 1
      in case UserService_ListUsers page pageSize w of
           (Inl err, w1) \<Rightarrow> (Inl (status_Errorf Internal ''failed to list users'' err), w1)
         | (Inr (us, tot), w1) \<Rightarrow> (Inr \<lparr>Users = map pb_of_User us, Total = ucast tot\<rparr>, w1))"

definition UserServer_UpdateUser :: "UpdateUserRequest \<Rightarrow> world \<Rightarrow> (status + pb_User) \<times> world" where
  "UserServer_UpdateUser req w =
     (case UserService_UpdateUser (UpdateUserRequest_Id req) (UpdateUserRequest_Email req)
             (UpdateUserRequest_Name req) w of
        (Inl err, w1) \<Rightarrow> (Inl (status_Errorf Internal ''failed to update user'' err), w1)
      | (Inr user, w1) \<Rightarrow> (Inr (pb_of_User user), w1))"

definition UserServer_DeleteUser :: "int \<Rightarrow> world \<Rightarrow> status option \<times> world" where
  "UserServer_DeleteUser req_Id w =
     (case UserService_DeleteUser req_Id w of
        (Some err, w1) \<Rightarrow> (Some (status_Errorf Internal ''failed to delete user'' err), w1)
      | (None, w1) \<Rightarrow> (None, w1))"

subsection \<open>What a call does to the cache\<close>

text \<open>
  \<open>no_cache_effect w w'\<close>: between \<open>w\<close> and \<open>w'\<close> no call went to the cache, and its
  entries are the same. \<open>invalidated ident w w'\<close>: the calls that went to the cache are the
  two deletions, of the per-id key and then of the list key, and the entries of \<open>w'\<close> are
  those of \<open>w\<close> without these two keys (a deletion that got no answer leaves its key as it
  was). \<open>list_invalidated\<close> is the same for the list key alone.
\<close>

definition no_cache_effect :: "world \<Rightarrow> world \<Rightarrow> bool" where
  "no_cache_effect w w' =
     (cache w' = cache w \<and> cache_faults w' = cache_faults w \<and>
      cache_calls (calls w') = cache_calls (calls w))"

definition invalidated :: "int \<Rightarrow> world \<Rightarrow> world \<Rightarrow> bool" where
  "invalidated ident w w' =
     (cache_calls (calls w') =
        cache_calls (calls w) @ [CacheDelete (Sprintf_user ident), CacheDelete ''users:list''] \<and>
      cache w' =
        (\<lambda>k. if k = Sprintf_user ident \<and> \<not> faulted (cache_faults w) then None
             else if k = ''users:list'' \<and> \<not> faulted (drop 1 (cache_faults w)) then None
             else cache w k))"

definition list_invalidated :: "world \<Rightarrow> world \<Rightarrow> bool" where
  "list_invalidated w w' =
     (cache_calls (calls w') = cache_calls (calls w) @ [CacheDelete ''users:list''] \<and>
      cache w' =
        (\<lambda>k. if k = ''users:list'' \<and> \<not> faulted (cache_faults w) then None else cache w k))"

subsection \<open>Example worlds\<close>

text \<open>One user in the table, and a cache that holds an entry under each of her two keys
  and a third one.\<close>

definition alice :: User where
  "alice = \<lparr>ID = 1, Email = ''a@x.com'', Name = ''A'', CreatedAt = 1000, UpdatedAt = 1000\<rparr>"

definition world1 :: world where
  "world1 =
     \<lparr>users = [alice], users_id_seq = 1, db_faults = [],
      cache = [''user:1'' \<mapsto> (''stale'', 300), ''users:list'' \<mapsto> (''[]'', 300),
               ''other'' \<mapsto> (''x'', 1)],
      cache_faults = [], now = 2000, ticks = [5], calls = []\<rparr>"

subsection \<open>What the cache holds for a user\<close>

text \<open>
  \<open>snapshot_or_absent ident user w\<close>: the cache of \<open>w\<close> has nothing under the key of
  \<open>ident\<close>, or the snapshot of \<open>user\<close>. \<open>cache_hit ident w\<close> is what \<open>GetUser\<close> takes from
  the cache: the user decoded from the entry under the key, when the cache answers, the
  value is not empty and it decodes.
\<close>

definition snapshot_or_absent :: "int \<Rightarrow> User \<Rightarrow> world \<Rightarrow> bool" where
  "snapshot_or_absent ident user w =
     (case cache w (Sprintf_user ident) of
        None \<Rightarrow> True
      | Some (data, ttl) \<Rightarrow> json_Marshal user = Some data)"

definition cache_hit :: "int \<Rightarrow> world \<Rightarrow> User option" where
  "cache_hit ident w =
     (if faulted (cache_faults w) then None
      else case cache w (Sprintf_user ident) of
             None \<Rightarrow> None
           | Some (data, ttl) \<Rightarrow> if data = [] then None else json_Unmarshal data)"

text \<open>Two worlds with the same store and the same clock: they may differ in the cache,
  in what the cache will answer, and in the calls made so far.\<close>

definition same_store :: "world \<Rightarrow> world \<Rightarrow> bool" where
  "same_store w w' =
     (users w = users w' \<and> users_id_seq w = users_id_seq w' \<and> db_faults w = db_faults w' \<and>
      now w = now w' \<and> ticks w = ticks w')"

text \<open>The snapshot of \<open>alice\<close>.\<close>

definition alice_json :: string where
  \<open>alice_json = ''{"id":1,"email":"a@x.com","name":"A","created_at":1000,"updated_at":1000}''\<close>

text \<open>
  \<open>world_warm\<close>: \<open>alice\<close> in the table and her snapshot in the cache, as a first
  \<open>GetUser(1)\<close> leaves them. \<open>world_stale\<close>: the world after \<open>UpdateUser(1, "b@x.com", "B")\<close>
  in \<open>world_warm\<close> when the cache answers neither of the two deletions: the table has the
  new row, the cache still has the old snapshot.
\<close>

definition world_warm :: world where
  "world_warm =
     \<lparr>users = [alice], users_id_seq = 1, db_faults = [],
      cache = [''user:1'' \<mapsto> (alice_json, 300)],
      cache_faults = [], now = 2000, ticks = [5],
      calls = [CacheGet ''user:1'', DbGetByID 1, CacheSet ''user:1'' alice_json 300]\<rparr>"

definition world_stale :: world where
  "world_stale =
     \<lparr>users = [alice\<lparr>Email := ''b@x.com'', Name := ''B'', UpdatedAt := 2000\<rparr>],
      users_id_seq = 1, db_faults = [],
      cache = [''user:1'' \<mapsto> (alice_json, 300)],
      cache_faults = [], now = 2005, ticks = [],
      calls = [CacheGet ''user:1'', DbGetByID 1, CacheSet ''user:1'' alice_json 300,
               DbGetByID 1,
               DbUpdate (alice\<lparr>Email := ''b@x.com'', Name := ''B'', UpdatedAt := 2000\<rparr>),
               CacheDelete ''user:1'', CacheDelete ''users:list'']\<rparr>"

text \<open>Three users, inserted in the order of their identifiers; \<open>bob\<close> is the newest.\<close>

definition bob :: User where
  "bob = \<lparr>ID = 2, Email = ''b@x.com'', Name = ''B'', CreatedAt = 3000, UpdatedAt = 3000\<rparr>"

definition carol :: User where
  "carol = \<lparr>ID = 3, Email = ''c@x.com'', Name = ''C'', CreatedAt = 2000, UpdatedAt = 2000\<rparr>"

definition world3 :: world where
  "world3 =
     \<lparr>users = [alice, bob, carol], users_id_seq = 3, db_faults = [], cache = Map.empty,
      cache_faults = [], now = 4000, ticks = [], calls = []\<rparr>"

section \<open>Properties\<close>

subsection \<open>Unfolding the collaborators\<close>

lemmas repo_defs =
  UserRepository_Create_def UserRepository_GetByID_def UserRepository_Update_def
  UserRepository_Delete_def UserRepository_List_def UserRepository_Count_def db_call_def
  pg_timestamptz_def

lemmas redis_defs = Redis_Get_def Redis_Set_def Redis_Delete_def cache_call_def

lemma Sprintf_user_not_list: "Sprintf_user ident \<noteq> ''users:list''"
  by (simp add: Sprintf_user_def)

lemma Sprintf_user_1: "Sprintf_user 1 = ''user:1''"
  by code_simp

subsection \<open>Writes invalidate the cache\<close>

lemma DeleteUser_ok:
  "UserService_DeleteUser ident w = (None, w') \<Longrightarrow> invalidated ident w w'"
  by (auto simp: UserService_DeleteUser_def repo_defs redis_defs invalidated_def cache_calls_def
      Let_def Sprintf_user_not_list fun_eq_iff split: if_splits)

lemma DeleteUser_err:
  "UserService_DeleteUser ident w = (Some err, w') \<Longrightarrow> no_cache_effect w w'"
  by (auto simp: UserService_DeleteUser_def repo_defs redis_defs no_cache_effect_def
      cache_calls_def Let_def split: if_splits)

lemma DeleteUser_store:
  "(case UserRepository_Delete ident w of
      (Some e, w1) \<Rightarrow>
        UserService_DeleteUser ident w = (Some (Errorf ''failed to delete user'' e), w1)
    | (None, w1) \<Rightarrow> fst (UserService_DeleteUser ident w) = None)"
  by (simp add: UserService_DeleteUser_def Let_def split: prod.splits option.splits)

lemma UpdateUser_ok:
  "UserService_UpdateUser ident email name w = (Inr user, w') \<Longrightarrow> invalidated ident w w'"
  by (auto simp: UserService_UpdateUser_def repo_defs redis_defs invalidated_def cache_calls_def
      time_Now_def Let_def Sprintf_user_not_list fun_eq_iff
      split: if_splits option.splits sum.splits list.splits)

lemma UpdateUser_err:
  "UserService_UpdateUser ident email name w = (Inl err, w') \<Longrightarrow> no_cache_effect w w'"
  by (auto simp: UserService_UpdateUser_def repo_defs redis_defs no_cache_effect_def
      cache_calls_def time_Now_def Let_def split: if_splits option.splits sum.splits list.splits)

lemma UpdateUser_store:
  "(case UserRepository_GetByID ident w of
      (Inl e, w1) \<Rightarrow>
        UserService_UpdateUser ident email name w = (Inl (Errorf ''user not found'' e), w1)
    | (Inr user0, w1) \<Rightarrow>
        (case UserRepository_Update
                (user0\<lparr>Email := email, Name := name, UpdatedAt := fst (time_Now w1)\<rparr>)
                (snd (time_Now w1)) of
           (Some e, w3) \<Rightarrow>
             UserService_UpdateUser ident email name w =
               (Inl (Errorf ''failed to update user'' e), w3)
         | (None, w3) \<Rightarrow>
             fst (UserService_UpdateUser ident email name w) =
               Inr (user0\<lparr>Email := email, Name := name, UpdatedAt := fst (time_Now w1)\<rparr>)))"
  by (simp add: UserService_UpdateUser_def Let_def split: prod.splits sum.splits option.splits)

text \<open>
  C1. A successful \<open>UpdateUser\<close> and a successful \<open>DeleteUser\<close> each send the cache exactly
  two calls before they return, the deletion of \<open>user:<id>\<close> and the deletion of
  \<open>users:list\<close>, and the cache they leave is the one they found without these two keys.
  When the store fails (the read or the update of \<open>UpdateUser\<close>, the delete of
  \<open>DeleteUser\<close>), the operation returns the store's error under its prefix, in the world as
  the failed store call left it: no call went to the cache and its entries are unchanged.
\<close>

theorem write_invalidates_two_keys:
  "(case UserService_UpdateUser ident email name w of
      (Inr user, w') \<Rightarrow> invalidated ident w w'
    | (Inl err, w') \<Rightarrow> no_cache_effect w w') \<and>
   (case UserService_DeleteUser ident w of
      (None, w') \<Rightarrow> invalidated ident w w'
    | (Some err, w') \<Rightarrow> no_cache_effect w w') \<and>
   (case UserRepository_GetByID ident w of
      (Inl e, w1) \<Rightarrow>
        UserService_UpdateUser ident email name w = (Inl (Errorf ''user not found'' e), w1)
    | (Inr user0, w1) \<Rightarrow>
        (case UserRepository_Update
                (user0\<lparr>Email := email, Name := name, UpdatedAt := fst (time_Now w1)\<rparr>)
                (snd (time_Now w1)) of
           (Some e, w3) \<Rightarrow>
             UserService_UpdateUser ident email name w =
               (Inl (Errorf ''failed to update user'' e), w3)
         | (None, w3) \<Rightarrow>
             fst (UserService_UpdateUser ident email name w) =
               Inr (user0\<lparr>Email := email, Name := name, UpdatedAt := fst (time_Now w1)\<rparr>))) \<and>
   (case UserRepository_Delete ident w of
      (Some e, w1) \<Rightarrow>
        UserService_DeleteUser ident w = (Some (Errorf ''failed to delete user'' e), w1)
    | (None, w1) \<Rightarrow> fst (UserService_DeleteUser ident w) = None)"
proof -
  have "case UserService_UpdateUser ident email name w of
          (Inr user, w') \<Rightarrow> invalidated ident w w'
        | (Inl err, w') \<Rightarrow> no_cache_effect w w'"
    using UpdateUser_ok UpdateUser_err by (auto split: prod.splits sum.splits)
  moreover have "case UserService_DeleteUser ident w of
          (None, w') \<Rightarrow> invalidated ident w w'
        | (Some err, w') \<Rightarrow> no_cache_effect w w'"
    using DeleteUser_ok DeleteUser_err by (auto split: prod.splits option.splits)
  ultimately show ?thesis
    using UpdateUser_store [where ident = ident and w = w and email = email and name = name]
      DeleteUser_store [where ident = ident and w = w]
    by blast
qed

theorem write_invalidates_two_keys_witness:
  "fst (UserService_UpdateUser 1 ''b@x.com'' ''B'' world1) =
     Inr \<lparr>ID = 1, Email = ''b@x.com'', Name = ''B'', CreatedAt = 1000, UpdatedAt = 2000\<rparr> \<and>
   invalidated 1 world1 (snd (UserService_UpdateUser 1 ''b@x.com'' ''B'' world1)) \<and>
   fst (UserService_DeleteUser 1 world1) = None \<and>
   invalidated 1 world1 (snd (UserService_DeleteUser 1 world1)) \<and>
   fst (UserService_DeleteUser 1 (world1\<lparr>db_faults := [True]\<rparr>)) =
     Some (Errorf ''failed to delete user'' (Errorf ''failed to delete user'' (Pg ConnFailed))) \<and>
   no_cache_effect (world1\<lparr>db_faults := [True]\<rparr>)
     (snd (UserService_DeleteUser 1 (world1\<lparr>db_faults := [True]\<rparr>)))"
  using write_invalidates_two_keys
      [where ident = 1 and email = "''b@x.com''" and name = "''B''" and w = world1]
    write_invalidates_two_keys
      [where ident = 1 and email = "''b@x.com''" and name = "''B''"
        and w = "world1\<lparr>db_faults := [True]\<rparr>"]
  by (simp add: UserService_UpdateUser_def UserService_DeleteUser_def repo_defs time_Now_def
      sql_update_def faulted_def world1_def alice_def Let_def split: prod.splits)

subsection \<open>Creation invalidates the list key only\<close>

lemma CreateUser_ok:
  "UserService_CreateUser email name w = (Inr user, w') \<Longrightarrow>
   list_invalidated w w' \<and> cache w' (Sprintf_user (ID user)) = cache w (Sprintf_user (ID user))"
  by (auto simp: UserService_CreateUser_def repo_defs redis_defs list_invalidated_def
      cache_calls_def time_Now_def sql_insert_def Let_def Sprintf_user_not_list
      split: if_splits list.splits)

lemma CreateUser_err:
  "UserService_CreateUser email name w = (Inl err, w') \<Longrightarrow> no_cache_effect w w'"
  by (auto simp: UserService_CreateUser_def repo_defs redis_defs no_cache_effect_def
      cache_calls_def time_Now_def sql_insert_def Let_def split: if_splits list.splits)

lemma CreateUser_store:
  "(case UserRepository_Create
           \<lparr>ID = 0, Email = email, Name = name, CreatedAt = fst (time_Now w),
            UpdatedAt = fst (time_Now (snd (time_Now w)))\<rparr>
           (snd (time_Now (snd (time_Now w)))) of
      (Inl e, w3) \<Rightarrow>
        UserService_CreateUser email name w = (Inl (Errorf ''failed to create user'' e), w3)
    | (Inr user, w3) \<Rightarrow> fst (UserService_CreateUser email name w) = Inr user)"
  by (simp add: UserService_CreateUser_def Let_def split: prod.splits sum.splits)

text \<open>
  C3. A successful \<open>CreateUser\<close> sends the cache one call, the deletion of \<open>users:list\<close>:
  the cache it leaves is the one it found without that key, so nothing is written under the
  new user's own key \<open>user:<id>\<close>. When the store's create fails, \<open>CreateUser\<close> returns the
  store's error under its prefix, in the world as the failed store call left it: no call
  went to the cache and its entries are unchanged.
\<close>

theorem create_invalidates_list_only:
  "(case UserService_CreateUser email name w of
      (Inr user, w') \<Rightarrow>
        list_invalidated w w' \<and>
        cache w' (Sprintf_user (ID user)) = cache w (Sprintf_user (ID user))
    | (Inl err, w') \<Rightarrow> no_cache_effect w w') \<and>
   (case UserRepository_Create
           \<lparr>ID = 0, Email = email, Name = name, CreatedAt = fst (time_Now w),
            UpdatedAt = fst (time_Now (snd (time_Now w)))\<rparr>
           (snd (time_Now (snd (time_Now w)))) of
      (Inl e, w3) \<Rightarrow>
        UserService_CreateUser email name w = (Inl (Errorf ''failed to create user'' e), w3)
    | (Inr user, w3) \<Rightarrow> fst (UserService_CreateUser email name w) = Inr user)"
proof -
  have "case UserService_CreateUser email name w of
          (Inr user, w') \<Rightarrow>
            list_invalidated w w' \<and>
            cache w' (Sprintf_user (ID user)) = cache w (Sprintf_user (ID user))
        | (Inl err, w') \<Rightarrow> no_cache_effect w w'"
    using CreateUser_ok CreateUser_err by (auto split: prod.splits sum.splits)
  then show ?thesis
    using CreateUser_store [where email = email and name = name and w = w] by blast
qed

theorem create_invalidates_list_only_witness:
  "fst (UserService_CreateUser ''b@x.com'' ''B'' world1) =
     Inr \<lparr>ID = 2, Email = ''b@x.com'', Name = ''B'', CreatedAt = 2000, UpdatedAt = 2005\<rparr> \<and>
   list_invalidated world1 (snd (UserService_CreateUser ''b@x.com'' ''B'' world1)) \<and>
   cache (snd (UserService_CreateUser ''b@x.com'' ''B'' world1)) ''user:2'' = None \<and>
   fst (UserService_CreateUser ''a@x.com'' ''B'' world1) =
     Inl (Errorf ''failed to create user'' (Errorf ''failed to create user'' (Pg UniqueViolation))) \<and>
   no_cache_effect world1 (snd (UserService_CreateUser ''a@x.com'' ''B'' world1))"
proof -
  have key: "Sprintf_user 2 = ''user:2''"
    by code_simp
  show ?thesis
    using create_invalidates_list_only
        [where email = "''b@x.com''" and name = "''B''" and w = world1]
      create_invalidates_list_only
        [where email = "''a@x.com''" and name = "''B''" and w = world1]
    by (simp add: UserService_CreateUser_def repo_defs redis_defs time_Now_def sql_insert_def
        faulted_def world1_def alice_def Let_def key split: prod.splits)
qed

subsection \<open>Deleting a user that is not there\<close>

text \<open>
  C10. \<open>DeleteUser\<close> fails only when the store does not answer; there is no not-found
  error. When the store answers, \<open>DeleteUser(id)\<close> returns success and sends the cache the
  two deletions of \<open>user:<id>\<close> and \<open>users:list\<close>, also for an \<open>id\<close> that no row of the
  table has, in which case the table is left as it was.
\<close>

theorem delete_absent_user_succeeds:
  "fst (UserService_DeleteUser ident w) =
     (if faulted (db_faults w)
      then Some (Errorf ''failed to delete user'' (Errorf ''failed to delete user'' (Pg ConnFailed)))
      else None) \<and>
   (\<not> faulted (db_faults w) \<longrightarrow>
      invalidated ident w (snd (UserService_DeleteUser ident w)) \<and>
      ((\<forall>u \<in> set (users w). ID u \<noteq> ident) \<longrightarrow>
         users (snd (UserService_DeleteUser ident w)) = users w))"
proof -
  have res: "fst (UserService_DeleteUser ident w) =
     (if faulted (db_faults w)
      then Some (Errorf ''failed to delete user'' (Errorf ''failed to delete user'' (Pg ConnFailed)))
      else None)"
    by (simp add: UserService_DeleteUser_def repo_defs Let_def)
  have inv: "invalidated ident w (snd (UserService_DeleteUser ident w))"
    if "\<not> faulted (db_faults w)"
    using that res DeleteUser_ok [of ident w "snd (UserService_DeleteUser ident w)"]
    by (metis prod.collapse)
  have same: "users (snd (UserService_DeleteUser ident w)) = users w"
    if "\<not> faulted (db_faults w)" "\<forall>u \<in> set (users w). ID u \<noteq> ident"
  proof -
    have "filter (\<lambda>r. ID r \<noteq> ident) (users w) = users w"
      using that(2) by (simp add: filter_id_conv)
    then show ?thesis
      using that(1) by (simp add: UserService_DeleteUser_def repo_defs redis_defs Let_def)
  qed
  show ?thesis
    using res inv same by blast
qed

theorem delete_absent_user_succeeds_witness:
  "7 \<notin> ID ` set (users world1) \<and> \<not> faulted (db_faults world1) \<and>
   fst (UserService_DeleteUser 7 world1) = None \<and>
   invalidated 7 world1 (snd (UserService_DeleteUser 7 world1)) \<and>
   users (snd (UserService_DeleteUser 7 world1)) = [alice]"
  using delete_absent_user_succeeds [where ident = 7 and w = world1]
  by (simp add: faulted_def world1_def alice_def)

subsection \<open>The snapshot is read back as it was written\<close>

lemma expect_append: "expect p (p @ r) = Some r"
  by (induction p) auto

lemma digit_val_digit: "d < 10 \<Longrightarrow> digit_val (digit d) = d"
  by (simp add: digit_val_def digit_def)

lemma is_digit_digit: "d < 10 \<Longrightarrow> is_digit (digit d)"
  by (simp add: is_digit_def digit_def)

lemma utoa_digits: "c \<in> set (utoa n) \<Longrightarrow> is_digit c"
proof (induction n arbitrary: c rule: utoa.induct)
  case (1 n)
  show ?case
  proof (cases "n < 10")
    case True
    with "1.prems" show ?thesis
      by (simp add: utoa.simps [of n] is_digit_digit)
  next
    case False
    with "1.prems" "1.IH" show ?thesis
      by (auto simp: utoa.simps [of n] is_digit_digit)
  qed
qed

lemma utoa_nonempty: "utoa n \<noteq> []"
  by (simp add: utoa.simps [of n])

lemma atou_snoc: "atou (ds @ [c]) = 10 * atou ds + digit_val c"
  by (simp add: atou_def)

lemma atou_utoa: "atou (utoa n) = n"
proof (induction n rule: utoa.induct)
  case (1 n)
  show ?case
  proof (cases "n < 10")
    case True
    then show ?thesis
      by (simp add: utoa.simps [of n] atou_def digit_val_digit)
  next
    case False
    with "1.IH" show ?thesis
      by (simp add: utoa.simps [of n] atou_snoc digit_val_digit)
  qed
qed

lemma parse_nat_utoa:
  assumes "r = [] \<or> \<not> is_digit (hd r)"
  shows "parse_nat (utoa n @ r) = Some (n, r)"
proof -
  have all: "\<forall>c \<in> set (utoa n). is_digit c"
    using utoa_digits by blast
  have r: "takeWhile is_digit r = []" "dropWhile is_digit r = r"
    using assms by (cases r; simp)+
  have "takeWhile is_digit (utoa n @ r) = utoa n"
    using all r by simp
  moreover have "dropWhile is_digit (utoa n @ r) = r"
    using all r by simp
  ultimately show ?thesis
    by (simp add: parse_nat_def utoa_nonempty atou_utoa)
qed

lemma hd_utoa_not_minus: "hd (utoa n) \<noteq> CHR ''-''"
proof -
  have "is_digit (hd (utoa n))"
    using utoa_digits [of "hd (utoa n)" n] utoa_nonempty [of n] by simp
  then show ?thesis
    by (auto simp: is_digit_def)
qed

lemma parse_int_itoa:
  assumes "r = [] \<or> \<not> is_digit (hd r)"
  shows "parse_int (itoa i @ r) = Some (i, r)"
proof (cases "i < 0")
  case True
  then show ?thesis
    using parse_nat_utoa [OF assms, of "nat (- i)"] by (simp add: parse_int_def itoa_def)
next
  case False
  obtain c cs where u: "utoa (nat i) = c # cs"
    using utoa_nonempty [of "nat i"] by (cases "utoa (nat i)") auto
  then have "c \<noteq> CHR ''-''"
    using hd_utoa_not_minus [of "nat i"] by simp
  then show ?thesis
    using False u parse_nat_utoa [OF assms, of "nat i"] by (simp add: parse_int_def itoa_def)
qed

lemma parse_chars_escape: "parse_chars (escape s @ CHR 0x22 # r) = Some (s, r)"
  by (induction s) auto

lemma parse_string_quote: "parse_string (quote s @ r) = Some (s, r)"
  by (simp add: parse_string_def quote_def parse_chars_escape)

lemma json_roundtrip:
  assumes "json_Marshal u = Some s"
  shows "s \<noteq> [] \<and> json_Unmarshal s = Some u"
proof -
  have ok: "time_ok (CreatedAt u)" "time_ok (UpdatedAt u)"
    using assms by (simp_all add: json_Marshal_def split: if_splits)
  then show ?thesis
    using assms
    by (auto simp: json_Marshal_def json_Unmarshal_def expect_append parse_int_itoa
        parse_string_quote is_digit_def)
qed

subsection \<open>Reads through the cache\<close>

lemma GetUser_hit:
  assumes "cache w (Sprintf_user ident) = Some (data, ttl)" "json_Marshal user = Some data"
    and "\<not> faulted (cache_faults w)"
  shows "UserService_GetUser ident w =
     (Inr user, w\<lparr>cache_faults := drop 1 (cache_faults w),
                  calls := calls w @ [CacheGet (Sprintf_user ident)]\<rparr>)"
  using assms json_roundtrip [OF assms(2)]
  by (simp add: UserService_GetUser_def redis_defs Let_def)

lemma GetUser_coherent:
  assumes "find (\<lambda>u. ID u = ident) (users w) = Some user"
    and "snapshot_or_absent ident user w" and "\<not> faulted (db_faults w)"
  shows "fst (UserService_GetUser ident w) = Inr user \<and>
         users (snd (UserService_GetUser ident w)) = users w \<and>
         snapshot_or_absent ident user (snd (UserService_GetUser ident w))"
proof (cases "cache w (Sprintf_user ident)")
  case None
  then show ?thesis
    using assms
    by (auto simp: UserService_GetUser_def redis_defs repo_defs Let_def snapshot_or_absent_def
        Minute_def split: option.splits)
next
  case (Some entry)
  obtain data ttl where e: "entry = (data, ttl)"
    by (cases entry)
  have m: "json_Marshal user = Some data"
    using assms(2) Some e by (simp add: snapshot_or_absent_def)
  show ?thesis
  proof (cases "faulted (cache_faults w)")
    case False
    then show ?thesis
      using GetUser_hit [of w ident data ttl user] Some e m assms(2)
      by (simp add: snapshot_or_absent_def)
  next
    case True
    then show ?thesis
      using assms Some e m
      by (auto simp: UserService_GetUser_def redis_defs repo_defs Let_def snapshot_or_absent_def
          Minute_def split: option.splits)
  qed
qed

lemma GetUser_cold:
  assumes "find (\<lambda>u. ID u = ident) (users w) = Some user"
    and "cache w (Sprintf_user ident) = None"
    and "db_faults w = []" and "cache_faults w = []"
    and "json_Marshal user = Some data"
  shows "UserService_GetUser ident w =
     (Inr user,
      w\<lparr>cache := (cache w)(Sprintf_user ident \<mapsto> (data, 300)),
        calls := calls w @ [CacheGet (Sprintf_user ident), DbGetByID ident,
                            CacheSet (Sprintf_user ident) data 300]\<rparr>)"
  using assms
  by (simp add: UserService_GetUser_def redis_defs repo_defs Let_def Minute_def faulted_def)

text \<open>
  C4. Let \<open>user\<close> be the row the table holds under \<open>ident\<close>, the cache hold nothing under
  the key of \<open>ident\<close>, and store and cache answer. Then \<open>GetUser(ident)\<close> returns \<open>user\<close>
  from the store, and a second \<open>GetUser(ident)\<close> returns the same \<open>user\<close> again, equal in
  all five fields. When the user can be encoded, the first call is a read of the store
  followed by the \<open>Set\<close> of the snapshot with a time-to-live of 300 seconds, the snapshot
  decodes to \<open>user\<close>, and the second call is served from the cache: its only call is the
  \<open>Get\<close> of the key.
\<close>

theorem GetUser_warm_equals_cold:
  assumes "find (\<lambda>u. ID u = ident) (users w) = Some user"
    and "cache w (Sprintf_user ident) = None"
    and "db_faults w = []" and "cache_faults w = []"
  shows "fst (UserService_GetUser ident w) = Inr user \<and>
         fst (UserService_GetUser ident (snd (UserService_GetUser ident w))) = Inr user \<and>
         (\<forall>data. json_Marshal user = Some data \<longrightarrow>
            json_Unmarshal data = Some user \<and>
            snd (UserService_GetUser ident w) =
              w\<lparr>cache := (cache w)(Sprintf_user ident \<mapsto> (data, 300)),
                calls := calls w @ [CacheGet (Sprintf_user ident), DbGetByID ident,
                                    CacheSet (Sprintf_user ident) data 300]\<rparr> \<and>
            calls (snd (UserService_GetUser ident (snd (UserService_GetUser ident w)))) =
              calls (snd (UserService_GetUser ident w)) @ [CacheGet (Sprintf_user ident)])"
proof -
  let ?w1 = "snd (UserService_GetUser ident w)"
  have absent: "snapshot_or_absent ident user w"
    using assms(2) by (simp add: snapshot_or_absent_def)
  have nf: "\<not> faulted (db_faults w)"
    using assms(3) by (simp add: faulted_def)
  have first: "fst (UserService_GetUser ident w) = Inr user" "users ?w1 = users w"
    "snapshot_or_absent ident user ?w1"
    using GetUser_coherent [OF assms(1) absent nf] by simp_all
  have dbf: "db_faults ?w1 = []"
    using assms(3)
    by (auto simp: UserService_GetUser_def redis_defs repo_defs Let_def
        split: option.splits sum.splits prod.splits if_splits)
  have second: "fst (UserService_GetUser ident ?w1) = Inr user"
    using GetUser_coherent [of ident ?w1 user] assms(1) first dbf by (simp add: faulted_def)
  have warm: "json_Unmarshal data = Some user \<and>
      ?w1 = w\<lparr>cache := (cache w)(Sprintf_user ident \<mapsto> (data, 300)),
             calls := calls w @ [CacheGet (Sprintf_user ident), DbGetByID ident,
                                 CacheSet (Sprintf_user ident) data 300]\<rparr> \<and>
      calls (snd (UserService_GetUser ident ?w1)) = calls ?w1 @ [CacheGet (Sprintf_user ident)]"
    if m: "json_Marshal user = Some data" for data
  proof -
    have w1: "?w1 = w\<lparr>cache := (cache w)(Sprintf_user ident \<mapsto> (data, 300)),
             calls := calls w @ [CacheGet (Sprintf_user ident), DbGetByID ident,
                                 CacheSet (Sprintf_user ident) data 300]\<rparr>"
      using GetUser_cold [OF assms m] by simp
    have "cache ?w1 (Sprintf_user ident) = Some (data, 300)" "\<not> faulted (cache_faults ?w1)"
      using assms(4) by (simp_all add: w1 faulted_def)
    then have "calls (snd (UserService_GetUser ident ?w1)) =
        calls ?w1 @ [CacheGet (Sprintf_user ident)]"
      using GetUser_hit [of ?w1 ident data 300 user] m by simp
    then show ?thesis
      using w1 json_roundtrip [OF m] by simp
  qed
  show ?thesis
    using first(1) second warm by blast
qed

theorem GetUser_warm_equals_cold_witness:
  "find (\<lambda>u. ID u = 1) (users (world1\<lparr>cache := Map.empty\<rparr>)) = Some alice \<and>
   fst (UserService_GetUser 1 (world1\<lparr>cache := Map.empty\<rparr>)) = Inr alice \<and>
   fst (UserService_GetUser 1 (snd (UserService_GetUser 1 (world1\<lparr>cache := Map.empty\<rparr>)))) =
     Inr alice \<and>
   json_Marshal alice = Some alice_json \<and>
   json_Unmarshal alice_json = Some alice \<and>
   calls (snd (UserService_GetUser 1 (snd (UserService_GetUser 1 (world1\<lparr>cache := Map.empty\<rparr>))))) =
     [CacheGet ''user:1'', DbGetByID 1, CacheSet ''user:1'' alice_json 300, CacheGet ''user:1'']"
proof -
  let ?w = "world1\<lparr>cache := Map.empty\<rparr>"
  have f: "find (\<lambda>u. ID u = 1) (users ?w) = Some alice"
    by (simp add: world1_def alice_def)
  have c: "cache ?w (Sprintf_user 1) = None"
    by simp
  have d: "db_faults ?w = []" "cache_faults ?w = []"
    by (simp_all add: world1_def)
  have m: "json_Marshal alice = Some alice_json"
    unfolding alice_def alice_json_def by code_simp
  note T = GetUser_warm_equals_cold [OF f c d]
  have a: "fst (UserService_GetUser 1 ?w) = Inr alice"
    "fst (UserService_GetUser 1 (snd (UserService_GetUser 1 ?w))) = Inr alice"
    using T by simp_all
  note W = T [THEN conjunct2, THEN conjunct2, rule_format, OF m]
  have b: "json_Unmarshal alice_json = Some alice"
    by (rule W [THEN conjunct1])
  have b1: "calls (snd (UserService_GetUser 1 ?w)) =
       calls ?w @ [CacheGet (Sprintf_user 1), DbGetByID 1, CacheSet (Sprintf_user 1) alice_json 300]"
    by (subst W [THEN conjunct2, THEN conjunct1]) simp
  have b2: "calls (snd (UserService_GetUser 1 (snd (UserService_GetUser 1 ?w)))) =
       calls (snd (UserService_GetUser 1 ?w)) @ [CacheGet (Sprintf_user 1)]"
    by (rule W [THEN conjunct2, THEN conjunct2])
  have "calls ?w = []"
    by (simp add: world1_def)
  then show ?thesis
    using f a m b by (simp add: b2 b1 Sprintf_user_1)
qed

subsection \<open>Failures of the cache\<close>

lemma GetByID_same_store:
  "same_store w w' \<Longrightarrow>
   fst (UserRepository_GetByID ident w) = fst (UserRepository_GetByID ident w')"
  by (simp add: same_store_def repo_defs Let_def split: option.splits)

lemma CreateUser_same_store:
  assumes "same_store w w'"
  shows "fst (UserService_CreateUser email name w) = fst (UserService_CreateUser email name w') \<and>
         same_store (snd (UserService_CreateUser email name w))
           (snd (UserService_CreateUser email name w'))"
  using assms
  by (auto simp: same_store_def UserService_CreateUser_def repo_defs redis_defs time_Now_def
      sql_insert_def Let_def split: list.splits)

lemma UpdateUser_same_store:
  assumes "same_store w w'"
  shows "fst (UserService_UpdateUser ident email name w) =
           fst (UserService_UpdateUser ident email name w') \<and>
         same_store (snd (UserService_UpdateUser ident email name w))
           (snd (UserService_UpdateUser ident email name w'))"
  using assms
  by (auto simp: same_store_def UserService_UpdateUser_def repo_defs redis_defs time_Now_def
      Let_def split: list.splits option.splits sum.splits)

lemma DeleteUser_same_store:
  assumes "same_store w w'"
  shows "fst (UserService_DeleteUser ident w) = fst (UserService_DeleteUser ident w') \<and>
         same_store (snd (UserService_DeleteUser ident w)) (snd (UserService_DeleteUser ident w'))"
  using assms
  by (auto simp: same_store_def UserService_DeleteUser_def repo_defs redis_defs Let_def)

lemma GetUser_result:
  "fst (UserService_GetUser ident w) =
     (case cache_hit ident w of
        Some user \<Rightarrow> Inr user
      | None \<Rightarrow> map_sum (Errorf ''user not found'') id (fst (UserRepository_GetByID ident w)))"
  by (auto simp: UserService_GetUser_def cache_hit_def repo_defs redis_defs Let_def
      split: option.splits)

text \<open>
  C2, as the code has it. Whatever the cache holds and whatever it answers, \<open>CreateUser\<close>,
  \<open>UpdateUser\<close> and \<open>DeleteUser\<close> return what the store and the clock decide, and leave
  the store as these decide: in two worlds with the same store and clock their results are
  equal. \<open>GetUser\<close> returns the user decoded from the cache when the \<open>Get\<close> is answered with
  a value that is not empty and decodes; in every other case (no answer, no entry, a value
  that does not decode) it returns what the store's \<open>GetByID\<close> returns, the error under its
  prefix, whatever the later \<open>Set\<close> does.
\<close>

theorem cache_failures_are_absorbed:
  "(same_store w w' \<longrightarrow>
      fst (UserService_CreateUser email name w) = fst (UserService_CreateUser email name w') \<and>
      same_store (snd (UserService_CreateUser email name w))
        (snd (UserService_CreateUser email name w')) \<and>
      fst (UserService_UpdateUser ident email name w) =
        fst (UserService_UpdateUser ident email name w') \<and>
      same_store (snd (UserService_UpdateUser ident email name w))
        (snd (UserService_UpdateUser ident email name w')) \<and>
      fst (UserService_DeleteUser ident w) = fst (UserService_DeleteUser ident w') \<and>
      same_store (snd (UserService_DeleteUser ident w)) (snd (UserService_DeleteUser ident w')) \<and>
      (cache_hit ident w = None \<and> cache_hit ident w' = None \<longrightarrow>
         fst (UserService_GetUser ident w) = fst (UserService_GetUser ident w'))) \<and>
   fst (UserService_GetUser ident w) =
     (case cache_hit ident w of
        Some user \<Rightarrow> Inr user
      | None \<Rightarrow> map_sum (Errorf ''user not found'') id (fst (UserRepository_GetByID ident w)))"
proof -
  have "fst (UserService_GetUser ident w) = fst (UserService_GetUser ident w')"
    if "same_store w w'" "cache_hit ident w = None" "cache_hit ident w' = None"
    using that GetByID_same_store [of w w' ident] by (simp add: GetUser_result)
  then show ?thesis
    using CreateUser_same_store [of w w' email name] UpdateUser_same_store [of w w' ident email name]
      DeleteUser_same_store [of w w' ident] GetUser_result [of ident w]
    by blast
qed

theorem cache_failures_are_absorbed_witness:
  "same_store world1 (world1\<lparr>cache := Map.empty, cache_faults := [True, True]\<rparr>) \<and>
   fst (UserService_UpdateUser 1 ''b@x.com'' ''B''
          (world1\<lparr>cache := Map.empty, cache_faults := [True, True]\<rparr>)) =
     Inr \<lparr>ID = 1, Email = ''b@x.com'', Name = ''B'', CreatedAt = 1000, UpdatedAt = 2000\<rparr> \<and>
   fst (UserService_DeleteUser 1 (world1\<lparr>cache := Map.empty, cache_faults := [True, True]\<rparr>)) =
     None \<and>
   cache_hit 1 (world1\<lparr>cache := Map.empty, cache_faults := [True, True]\<rparr>) = None \<and>
   fst (UserService_GetUser 1 (world1\<lparr>cache := Map.empty, cache_faults := [True, True]\<rparr>)) =
     Inr alice"
proof -
  let ?w' = "world1\<lparr>cache := Map.empty, cache_faults := [True, True]\<rparr>"
  have s: "same_store world1 ?w'"
    by (simp add: same_store_def)
  have h: "cache_hit 1 ?w' = None"
    by (simp add: cache_hit_def faulted_def)
  note T = cache_failures_are_absorbed
    [where w = world1 and w' = ?w' and ident = 1 and email = "''b@x.com''" and name = "''B''"]
  have u: "fst (UserService_UpdateUser 1 ''b@x.com'' ''B'' ?w') =
      fst (UserService_UpdateUser 1 ''b@x.com'' ''B'' world1)"
    using T s by simp
  have d: "fst (UserService_DeleteUser 1 ?w') = fst (UserService_DeleteUser 1 world1)"
    using T s by simp
  have g: "fst (UserService_GetUser 1 ?w') =
      map_sum (Errorf ''user not found'') id (fst (UserRepository_GetByID 1 ?w'))"
    using cache_failures_are_absorbed [where w = ?w' and w' = ?w' and ident = 1] h by simp
  have "fst (UserService_UpdateUser 1 ''b@x.com'' ''B'' world1) =
      Inr \<lparr>ID = 1, Email = ''b@x.com'', Name = ''B'', CreatedAt = 1000, UpdatedAt = 2000\<rparr>"
    by (simp add: UserService_UpdateUser_def repo_defs time_Now_def sql_update_def faulted_def
        world1_def alice_def Let_def split: prod.splits)
  moreover have "fst (UserService_DeleteUser 1 world1) = None"
    by (simp add: UserService_DeleteUser_def repo_defs faulted_def world1_def Let_def
        split: prod.splits)
  moreover have "fst (UserRepository_GetByID 1 ?w') = Inr alice"
    by (simp add: repo_defs faulted_def world1_def alice_def Let_def)
  ultimately show ?thesis
    using s h u d g by simp
qed

text \<open>
  C2, as the claim states it, fails for \<open>GetUser\<close>. In \<open>world_stale\<close>, which \<open>UpdateUser\<close>
  leaves behind when the cache answers neither deletion, \<open>GetUser(1)\<close> returns the old
  snapshot from the cache; when the \<open>Get\<close> gets no answer it returns the new row from the
  store. The store, the clock and the request are the same in both runs.
\<close>

theorem GetUser_result_depends_on_cache:
  "snd (UserService_GetUser 1 (world1\<lparr>cache := Map.empty\<rparr>)) = world_warm \<and>
   snd (UserService_UpdateUser 1 ''b@x.com'' ''B'' (world_warm\<lparr>cache_faults := [True, True]\<rparr>)) =
     world_stale \<and>
   same_store world_stale (world_stale\<lparr>cache_faults := [True]\<rparr>) \<and>
   fst (UserService_GetUser 1 world_stale) = Inr alice \<and>
   fst (UserService_GetUser 1 (world_stale\<lparr>cache_faults := [True]\<rparr>)) =
     Inr (alice\<lparr>Email := ''b@x.com'', Name := ''B'', UpdatedAt := 2000\<rparr>) \<and>
   fst (UserService_GetUser 1 world_stale) \<noteq>
     fst (UserService_GetUser 1 (world_stale\<lparr>cache_faults := [True]\<rparr>))"
proof -
  have m: "json_Marshal alice = Some alice_json"
    unfolding alice_def alice_json_def by code_simp
  have cold: "snd (UserService_GetUser 1 (world1\<lparr>cache := Map.empty\<rparr>)) = world_warm"
    using GetUser_cold [of 1 "world1\<lparr>cache := Map.empty\<rparr>" alice alice_json] m
    by (simp add: world1_def world_warm_def alice_def Sprintf_user_1)
  have up: "snd (UserService_UpdateUser 1 ''b@x.com'' ''B''
      (world_warm\<lparr>cache_faults := [True, True]\<rparr>)) = world_stale"
    by (simp add: UserService_UpdateUser_def repo_defs redis_defs time_Now_def sql_update_def
        faulted_def world_warm_def world_stale_def alice_def Let_def Sprintf_user_1
        split: prod.splits)
  have hit: "fst (UserService_GetUser 1 world_stale) = Inr alice"
    using GetUser_hit [of world_stale 1 alice_json 300 alice] m
    by (simp add: world_stale_def Sprintf_user_1 faulted_def)
  have miss: "fst (UserService_GetUser 1 (world_stale\<lparr>cache_faults := [True]\<rparr>)) =
      Inr (alice\<lparr>Email := ''b@x.com'', Name := ''B'', UpdatedAt := 2000\<rparr>)"
    by (simp add: GetUser_result cache_hit_def faulted_def repo_defs world_stale_def alice_def
        Let_def)
  have "alice \<noteq> alice\<lparr>Email := ''b@x.com'', Name := ''B'', UpdatedAt := 2000\<rparr>"
    by (simp add: alice_def)
  then show ?thesis
    using cold up hit miss by (simp add: same_store_def)
qed

subsection \<open>Listing\<close>

lemma sint_page_offset:
  fixes page pageSize :: go_int
  assumes "1 \<le>s page" "1 \<le>s pageSize" "(sint page - 1) * sint pageSize < 2 ^ 63"
  shows "sint ((page - 1) * pageSize) = (sint page - 1) * sint pageSize"
proof -
  have p: "1 \<le> sint page" and s: "1 \<le> sint pageSize"
    using assms(1,2) by (simp_all add: word_sle_eq)
  have up: "sint page < 2 ^ 63"
    using sint_lt [of page] by simp
  have m: "sint (page - 1) = sint page - 1"
    using p up by (simp add: sint_word_ariths signed_take_bit_int_eq_self)
  have nonneg: "0 \<le> (sint page - 1) * sint pageSize"
    using p s by simp
  have "sint ((page - 1) * pageSize) = signed_take_bit 63 (sint (page - 1) * sint pageSize)"
    by (simp only: sint_word_ariths) simp
  also have "\<dots> = signed_take_bit 63 ((sint page - 1) * sint pageSize)"
    by (simp only: m)
  also have "\<dots> = (sint page - 1) * sint pageSize"
    using nonneg assms(3) by (intro signed_take_bit_int_eq_self) simp_all
  finally show ?thesis .
qed

lemma sorted_desc_sql_list:
  assumes "sql_list limit offset us = Inr page"
  shows "sorted_wrt (\<lambda>a b. CreatedAt b \<le> CreatedAt a) page"
proof -
  have "sorted (map (\<lambda>u. - CreatedAt u) (sort_key (\<lambda>u. - CreatedAt u) us))"
    by (rule sorted_sort_key)
  then have "sorted_wrt (\<lambda>a b. CreatedAt b \<le> CreatedAt a) (sort_key (\<lambda>u. - CreatedAt u) us)"
    by (simp add: sorted_map)
  then have "sorted_wrt (\<lambda>a b. CreatedAt b \<le> CreatedAt a)
      (take (nat (sint limit)) (drop (nat (sint offset)) (sort_key (\<lambda>u. - CreatedAt u) us)))"
    by (intro sorted_wrt_take sorted_wrt_drop)
  then show ?thesis
    using assms by (auto simp: sql_list_def split: if_splits)
qed

lemma ListUsers_calls:
  "\<exists>rest. calls (snd (UserService_ListUsers page pageSize w)) =
            calls w @ DbList pageSize ((page - 1) * pageSize) # rest \<and>
          set rest \<subseteq> {DbCount}"
  by (auto simp: UserService_ListUsers_def repo_defs Let_def split: sum.splits)

lemma ListUsers_page:
  assumes "fst (UserService_ListUsers page pageSize w) = Inr (us, tot)"
  shows "us = (case sql_list pageSize ((page - 1) * pageSize) (users w) of
                 Inl e \<Rightarrow> []
               | Inr rows \<Rightarrow> rows) \<and>
         tot = of_nat (length (users w))"
  using assms
  by (auto simp: UserService_ListUsers_def repo_defs Let_def split: sum.splits if_splits)

text \<open>
  C8. For \<open>page \<ge> 1\<close> and \<open>pageSize \<ge> 1\<close>, the first call of \<open>ListUsers\<close> is the store's
  \<open>List\<close> with limit \<open>pageSize\<close> and offset \<open>(page - 1) * pageSize\<close>, the product computed
  as Go computes it on \<open>int\<close>; it is the exact product, and not negative, whenever that is
  below \<open>2^63\<close>. The only other call is the store's \<open>Count\<close>. The users returned are
  ordered by creation time, newest first: they are the \<open>pageSize\<close> rows after the first
  \<open>offset\<close> rows of the table sorted by descending \<open>created_at\<close>, and no rows when the
  product has wrapped around to a negative offset, which the store refuses.
\<close>

theorem ListUsers_offset_and_order:
  assumes "1 \<le>s page" and "1 \<le>s pageSize"
  shows "(\<exists>rest. calls (snd (UserService_ListUsers page pageSize w)) =
                   calls w @ DbList pageSize ((page - 1) * pageSize) # rest \<and>
                 set rest \<subseteq> {DbCount}) \<and>
         ((sint page - 1) * sint pageSize < 2 ^ 63 \<longrightarrow>
            sint ((page - 1) * pageSize) = (sint page - 1) * sint pageSize \<and>
            \<not> (page - 1) * pageSize <s 0) \<and>
         (\<forall>us tot. fst (UserService_ListUsers page pageSize w) = Inr (us, tot) \<longrightarrow>
            sorted_wrt (\<lambda>a b. CreatedAt b \<le> CreatedAt a) us \<and>
            us = (if (page - 1) * pageSize <s 0 then []
                  else take (nat (sint pageSize))
                         (drop (nat (sint ((page - 1) * pageSize)))
                            (sort_key (\<lambda>u. - CreatedAt u) (users w)))))"
proof -
  have limit: "\<not> pageSize <s 0"
    using assms(2) by (simp add: word_sle_eq word_sless_alt)
  have exact: "sint ((page - 1) * pageSize) = (sint page - 1) * sint pageSize \<and>
      \<not> (page - 1) * pageSize <s 0"
    if small: "(sint page - 1) * sint pageSize < 2 ^ 63"
  proof -
    have e: "sint ((page - 1) * pageSize) = (sint page - 1) * sint pageSize"
      using sint_page_offset [OF assms small] .
    have "1 \<le> sint page" "1 \<le> sint pageSize"
      using assms by (simp_all add: word_sle_eq)
    then have "0 \<le> (sint page - 1) * sint pageSize"
      by simp
    then show ?thesis
      using e by (simp add: word_sless_alt)
  qed
  have "sorted_wrt (\<lambda>a b. CreatedAt b \<le> CreatedAt a) us \<and>
        us = (if (page - 1) * pageSize <s 0 then []
              else take (nat (sint pageSize))
                     (drop (nat (sint ((page - 1) * pageSize)))
                        (sort_key (\<lambda>u. - CreatedAt u) (users w))))"
    if "fst (UserService_ListUsers page pageSize w) = Inr (us, tot)" for us tot
  proof (cases "sql_list pageSize ((page - 1) * pageSize) (users w)")
    case (Inl e)
    then have "us = []" "(page - 1) * pageSize <s 0"
      using ListUsers_page [OF that] limit by (auto simp: sql_list_def split: if_splits)
    then show ?thesis
      by simp
  next
    case (Inr rows)
    then have "us = rows"
      using ListUsers_page [OF that] by simp
    then show ?thesis
      using Inr sorted_desc_sql_list [OF Inr] by (auto simp: sql_list_def split: if_splits)
  qed
  then show ?thesis
    using ListUsers_calls [of page pageSize w] exact by blast
qed

theorem ListUsers_offset_and_order_witness:
  "(1 :: go_int) \<le>s 2 \<and> (sint (2 :: go_int) - 1) * sint (2 :: go_int) < 2 ^ 63 \<and>
   sint (((2 :: go_int) - 1) * 2) = 2 \<and>
   calls (snd (UserService_ListUsers 2 2 world3)) = [DbList 2 2, DbCount] \<and>
   fst (UserService_ListUsers 2 2 world3) = Inr ([alice], 3) \<and>
   sorted_wrt (\<lambda>a b. CreatedAt b \<le> CreatedAt a) [alice] \<and>
   fst (UserService_ListUsers 1 2 world3) = Inr ([bob, carol], 3) \<and>
   sorted_wrt (\<lambda>a b. CreatedAt b \<le> CreatedAt a) [bob, carol] \<and>
   (1 :: go_int) \<le>s 2305843009213693953 \<and> (1 :: go_int) \<le>s 4 \<and>
   ((2305843009213693953 :: go_int) - 1) * 4 <s 0 \<and>
   UserService_ListUsers 2305843009213693953 4 world3 =
     (Inr ([], 3),
      world3\<lparr>calls := [DbList 4 ((2305843009213693953 - 1) * 4), DbCount]\<rparr>)"
proof -
  have le: "(1 :: go_int) \<le>s 2" "(1 :: go_int) \<le>s 1"
    by (simp_all add: word_sle_eq)
  have big: "(1 :: go_int) \<le>s 2305843009213693953" "(1 :: go_int) \<le>s 4"
    "((2305843009213693953 :: go_int) - 1) * 4 <s 0"
    by (simp_all add: word_sle_eq word_sless_alt)
  have wrapped: "UserService_ListUsers 2305843009213693953 4 world3 =
     (Inr ([], 3),
      world3\<lparr>calls := [DbList 4 ((2305843009213693953 - 1) * 4), DbCount]\<rparr>)"
    by (simp add: UserService_ListUsers_def repo_defs sql_list_def faulted_def world3_def
        Let_def word_sless_alt)
  note T3 = ListUsers_offset_and_order [OF big(1) big(2), where w = world3]
  have r2: "fst (UserService_ListUsers 2 2 world3) = Inr ([alice], 3)"
    by (simp add: UserService_ListUsers_def repo_defs sql_list_def faulted_def world3_def
        alice_def bob_def carol_def Let_def word_sless_alt)
  have r1: "fst (UserService_ListUsers 1 2 world3) = Inr ([bob, carol], 3)"
    by (simp add: UserService_ListUsers_def repo_defs sql_list_def faulted_def world3_def
        alice_def bob_def carol_def Let_def word_sless_alt)
  have c2: "calls (snd (UserService_ListUsers 2 2 world3)) = [DbList 2 2, DbCount]"
    by (simp add: UserService_ListUsers_def repo_defs sql_list_def faulted_def world3_def
        Let_def word_sless_alt)
  note T2 = ListUsers_offset_and_order [OF le(1) le(1), where w = world3]
  note T1 = ListUsers_offset_and_order [OF le(2) le(1), where w = world3]
  have s2: "sorted_wrt (\<lambda>a b. CreatedAt b \<le> CreatedAt a) [alice]"
    using T2 r2 by blast
  have s1: "sorted_wrt (\<lambda>a b. CreatedAt b \<le> CreatedAt a) [bob, carol]"
    using T1 r1 by blast
  have "(sint (2 :: go_int) - 1) * sint (2 :: go_int) < 2 ^ 63"
    by simp
  then have "sint (((2 :: go_int) - 1) * 2) = 2"
    using T2 by simp
  then show ?thesis
    using le r2 r1 c2 s2 s1 big wrapped T3 by simp
qed

subsection \<open>The bounds of a listing\<close>

lemma sint_scast_32_64: "sint (scast (x :: int32) :: go_int) = sint x"
  by (rule sint_up_scast) (simp add: is_up)

lemma sint_go_max: "sint (go_max a b) = max (sint a) (sint b)"
  by (auto simp: go_max_def word_sless_alt)

lemma sint_go_min: "sint (go_min a b) = min (sint a) (sint b)"
  by (auto simp: go_min_def word_sless_alt)

lemma handler_page: "1 \<le>s go_max (scast (p :: int32)) 1"
  by (simp add: word_sle_eq sint_go_max)

lemma handler_pageSize: "go_min (scast (ps :: int32)) 100 \<le>s 100"
  by (simp add: word_sle_eq sint_go_min)

lemma server_ListUsers_calls:
  "calls (snd (UserServer_ListUsers req w)) =
     calls (snd (UserService_ListUsers (go_max (scast (ListUsersRequest_Page req)) 1)
                   (go_min (scast (ListUsersRequest_PageSize req)) 100) w))"
  by (simp add: UserServer_ListUsers_def Let_def split: prod.splits sum.splits)

text \<open>
  C5, as the code has it. For every inbound request the store is queried with a limit
  \<open>pageSize\<close> and the offset \<open>(page - 1) * pageSize\<close>, where \<open>page\<close> is the inbound page
  raised to at least 1 and \<open>pageSize\<close> is at most 100; for an inbound page size of at
  least 1, \<open>pageSize\<close> is the smaller of it and 100, so between 1 and 100. The service
  itself clamps nothing: whatever \<open>page\<close> and \<open>pageSize\<close> it is given, it queries the store
  with limit \<open>pageSize\<close> and offset \<open>(page - 1) * pageSize\<close>.
\<close>

theorem ListUsers_bounds:
  "(\<exists>page pageSize rest.
      1 \<le>s page \<and> sint page = max (sint (ListUsersRequest_Page req)) 1 \<and>
      pageSize \<le>s 100 \<and>
      (1 \<le>s ListUsersRequest_PageSize req \<longrightarrow>
         1 \<le>s pageSize \<and> sint pageSize = min (sint (ListUsersRequest_PageSize req)) 100) \<and>
      calls (snd (UserServer_ListUsers req w)) =
        calls w @ DbList pageSize ((page - 1) * pageSize) # rest \<and>
      set rest \<subseteq> {DbCount}) \<and>
   (\<exists>rest.
      calls (snd (UserService_ListUsers p ps w)) = calls w @ DbList ps ((p - 1) * ps) # rest \<and>
      set rest \<subseteq> {DbCount})"
proof -
  let ?page = "go_max (scast (ListUsersRequest_Page req)) 1"
  let ?pageSize = "go_min (scast (ListUsersRequest_PageSize req)) 100"
  obtain rest where rest:
    "calls (snd (UserServer_ListUsers req w)) =
       calls w @ DbList ?pageSize ((?page - 1) * ?pageSize) # rest" "set rest \<subseteq> {DbCount}"
    using ListUsers_calls [of ?page ?pageSize w] by (auto simp: server_ListUsers_calls)
  have page: "1 \<le>s ?page" "sint ?page = max (sint (ListUsersRequest_Page req)) 1"
    by (simp_all add: handler_page sint_go_max sint_scast_32_64)
  have size: "?pageSize \<le>s 100"
    by (rule handler_pageSize)
  have low: "1 \<le>s ?pageSize \<and> sint ?pageSize = min (sint (ListUsersRequest_PageSize req)) 100"
    if "1 \<le>s ListUsersRequest_PageSize req"
    using that by (simp add: word_sle_eq sint_go_min sint_scast_32_64)
  have "\<exists>page pageSize rest.
      1 \<le>s page \<and> sint page = max (sint (ListUsersRequest_Page req)) 1 \<and>
      pageSize \<le>s 100 \<and>
      (1 \<le>s ListUsersRequest_PageSize req \<longrightarrow>
         1 \<le>s pageSize \<and> sint pageSize = min (sint (ListUsersRequest_PageSize req)) 100) \<and>
      calls (snd (UserServer_ListUsers req w)) =
        calls w @ DbList pageSize ((page - 1) * pageSize) # rest \<and>
      set rest \<subseteq> {DbCount}"
    using rest page size low by blast
  then show ?thesis
    using ListUsers_calls [of p ps w] by blast
qed

theorem ListUsers_bounds_witness:
  "(1 :: int32) \<le>s 1000 \<and>
   calls (snd (UserServer_ListUsers
                \<lparr>ListUsersRequest_Page = - 5, ListUsersRequest_PageSize = 1000\<rparr> world3)) =
     [DbList 100 0, DbCount] \<and>
   fst (UserServer_ListUsers
          \<lparr>ListUsersRequest_Page = - 5, ListUsersRequest_PageSize = 1000\<rparr> world3) =
     Inr \<lparr>Users = map pb_of_User [bob, carol, alice], Total = 3\<rparr>"
proof -
  let ?req = "\<lparr>ListUsersRequest_Page = - 5, ListUsersRequest_PageSize = 1000\<rparr>"
  have ps: "(1 :: int32) \<le>s 1000"
    by (simp add: word_sle_eq)
  obtain page pageSize rest where T:
    "sint page = max (sint (ListUsersRequest_Page ?req)) 1"
    "1 \<le>s ListUsersRequest_PageSize ?req \<longrightarrow>
       sint pageSize = min (sint (ListUsersRequest_PageSize ?req)) 100"
    "calls (snd (UserServer_ListUsers ?req world3)) =
       calls world3 @ DbList pageSize ((page - 1) * pageSize) # rest"
    using ListUsers_bounds [where req = ?req and w = world3] by blast
  have "sint page = 1" "sint pageSize = 100"
    using T(1,2) ps by simp_all
  then have pv: "page = 1" "pageSize = 100"
    by (auto intro: signed_word_eqI)
  have c: "calls (snd (UserServer_ListUsers ?req world3)) = [DbList 100 0, DbCount]"
    by (simp add: UserServer_ListUsers_def UserService_ListUsers_def repo_defs sql_list_def
        faulted_def world3_def Let_def word_sless_alt go_min_def go_max_def)
  have r: "fst (UserServer_ListUsers ?req world3) =
      Inr \<lparr>Users = map pb_of_User [bob, carol, alice], Total = 3\<rparr>"
    by (simp add: UserServer_ListUsers_def UserService_ListUsers_def repo_defs sql_list_def
        faulted_def world3_def alice_def bob_def carol_def Let_def word_sless_alt go_min_def
        go_max_def)
  show ?thesis
    using ps c r T(3) pv by simp
qed

text \<open>
  C5, as the claim states it, fails. An inbound page size of 0 reaches the store as the
  limit 0, below 1, and the page returned is empty; and the service called with page 0 and
  page size 5 does not clamp the page to 1: it queries the store with the offset -5, which
  the store refuses, and returns no users where page 1 has three.
\<close>

theorem ListUsers_not_clamped:
  "calls (snd (UserServer_ListUsers
                \<lparr>ListUsersRequest_Page = 1, ListUsersRequest_PageSize = 0\<rparr> world3)) =
     [DbList 0 0, DbCount] \<and>
   fst (UserServer_ListUsers
          \<lparr>ListUsersRequest_Page = 1, ListUsersRequest_PageSize = 0\<rparr> world3) =
     Inr \<lparr>Users = [], Total = 3\<rparr> \<and>
   calls (snd (UserService_ListUsers 0 5 world3)) = [DbList 5 (- 5), DbCount] \<and>
   fst (UserService_ListUsers 0 5 world3) = Inr ([], 3) \<and>
   fst (UserService_ListUsers 1 5 world3) = Inr ([bob, carol, alice], 3)"
  by (simp add: UserServer_ListUsers_def UserService_ListUsers_def repo_defs sql_list_def
      faulted_def world3_def alice_def bob_def carol_def Let_def word_sless_alt go_min_def
      go_max_def)

subsection \<open>The status codes of the handlers\<close>

lemma CreateUser_duplicate_email:
  assumes "email \<in> Email ` set (users w)"
  shows "\<exists>err. fst (UserService_CreateUser email name w) = Inl err"
  using assms
  by (auto simp: UserService_CreateUser_def repo_defs time_Now_def sql_insert_def Let_def
      split: list.splits)

lemma find_absent: "ident \<notin> ID ` set us \<Longrightarrow> find (\<lambda>u. ID u = ident) us = None"
  by (auto simp: find_None_iff)

lemma UpdateUser_absent:
  assumes "ident \<notin> ID ` set (users w)"
  shows "\<exists>err. fst (UserService_UpdateUser ident email name w) = Inl err"
  using find_absent [OF assms]
  by (auto simp: UserService_UpdateUser_def repo_defs Let_def)

lemma server_GetUser_result:
  "fst (UserServer_GetUser ident w) =
     map_sum (status_Errorf NotFound ''user not found'') pb_of_User
       (fst (UserService_GetUser ident w))"
  by (simp add: UserServer_GetUser_def split: prod.splits sum.splits)

text \<open>
  C6, as the code has it. Each handler answers every error of the service with one fixed
  code, whatever the cause: \<open>GetUser\<close> with \<open>NotFound\<close>; \<open>CreateUser\<close>, \<open>ListUsers\<close>,
  \<open>UpdateUser\<close> and \<open>DeleteUser\<close> with \<open>Internal\<close>. So a create request whose email an
  existing user has fails with \<open>Internal\<close>, and so does an update of an identifier that no
  user has; no handler answers with \<open>InvalidArgument\<close> or \<open>AlreadyExists\<close>.
\<close>

theorem handler_status_codes:
  "(\<forall>st. fst (UserServer_CreateUser creq w) = Inl st \<longrightarrow> Code st = Internal) \<and>
   (\<forall>st. fst (UserServer_GetUser ident w) = Inl st \<longrightarrow> Code st = NotFound) \<and>
   (\<forall>st. fst (UserServer_ListUsers lreq w) = Inl st \<longrightarrow> Code st = Internal) \<and>
   (\<forall>st. fst (UserServer_UpdateUser ureq w) = Inl st \<longrightarrow> Code st = Internal) \<and>
   (\<forall>st. fst (UserServer_DeleteUser ident w) = Some st \<longrightarrow> Code st = Internal) \<and>
   (CreateUserRequest_Email creq \<in> Email ` set (users w) \<longrightarrow>
      (\<exists>st. fst (UserServer_CreateUser creq w) = Inl st \<and> Code st = Internal)) \<and>
   (UpdateUserRequest_Id ureq \<notin> ID ` set (users w) \<longrightarrow>
      (\<exists>st. fst (UserServer_UpdateUser ureq w) = Inl st \<and> Code st = Internal))"
proof -
  have c: "Code st = Internal" if "fst (UserServer_CreateUser creq w) = Inl st" for st
    using that
    by (auto simp: UserServer_CreateUser_def status_Errorf_def split: prod.splits sum.splits)
  have g: "Code st = NotFound" if "fst (UserServer_GetUser ident w) = Inl st" for st
    using that
    by (auto simp: UserServer_GetUser_def status_Errorf_def split: prod.splits sum.splits)
  have l: "Code st = Internal" if "fst (UserServer_ListUsers lreq w) = Inl st" for st
    using that
    by (auto simp: UserServer_ListUsers_def status_Errorf_def Let_def
        split: prod.splits sum.splits)
  have u: "Code st = Internal" if "fst (UserServer_UpdateUser ureq w) = Inl st" for st
    using that
    by (auto simp: UserServer_UpdateUser_def status_Errorf_def split: prod.splits sum.splits)
  have d: "Code st = Internal" if "fst (UserServer_DeleteUser ident w) = Some st" for st
    using that
    by (auto simp: UserServer_DeleteUser_def status_Errorf_def split: prod.splits option.splits)
  have dup: "\<exists>st. fst (UserServer_CreateUser creq w) = Inl st \<and> Code st = Internal"
    if "CreateUserRequest_Email creq \<in> Email ` set (users w)"
    using CreateUser_duplicate_email [OF that, of "CreateUserRequest_Name creq"]
    by (auto simp: UserServer_CreateUser_def status_Errorf_def split: prod.splits)
  have absent: "\<exists>st. fst (UserServer_UpdateUser ureq w) = Inl st \<and> Code st = Internal"
    if "UpdateUserRequest_Id ureq \<notin> ID ` set (users w)"
    using UpdateUser_absent [OF that, of "UpdateUserRequest_Email ureq" "UpdateUserRequest_Name ureq"]
    by (auto simp: UserServer_UpdateUser_def status_Errorf_def split: prod.splits)
  show ?thesis
    using c g l u d dup absent by blast
qed

theorem handler_status_codes_witness:
  "''a@x.com'' \<in> Email ` set (users world1) \<and>
   Code (projl (fst (UserServer_CreateUser
      \<lparr>CreateUserRequest_Email = ''a@x.com'', CreateUserRequest_Name = ''Z''\<rparr> world1))) = Internal \<and>
   fst (UserServer_GetUser 7 (world1\<lparr>db_faults := [True]\<rparr>)) =
     Inl (Status NotFound ''user not found: user not found: user not found: failed to connect'')"
proof -
  let ?creq = "\<lparr>CreateUserRequest_Email = ''a@x.com'', CreateUserRequest_Name = ''Z''\<rparr>"
  have e: "''a@x.com'' \<in> Email ` set (users world1)"
    by (simp add: world1_def alice_def)
  then have "\<exists>st. fst (UserServer_CreateUser ?creq world1) = Inl st \<and> Code st = Internal"
    using handler_status_codes [where creq = ?creq and w = world1] by simp
  then have c: "Code (projl (fst (UserServer_CreateUser ?creq world1))) = Internal"
    by auto
  have key: "Sprintf_user 7 = ''user:7''"
    by code_simp
  have "fst (UserService_GetUser 7 (world1\<lparr>db_faults := [True]\<rparr>)) =
     Inl (Errorf ''user not found'' (Errorf ''user not found'' (Pg ConnFailed)))"
    by (simp add: GetUser_result cache_hit_def repo_defs faulted_def world1_def Let_def key)
  then have "fst (UserServer_GetUser 7 (world1\<lparr>db_faults := [True]\<rparr>)) =
     Inl (Status NotFound ''user not found: user not found: user not found: failed to connect'')"
    by (simp add: server_GetUser_result status_Errorf_def)
  then show ?thesis
    using e c by simp
qed

text \<open>
  C6, as the claim states it, fails. A create request with the email of \<open>alice\<close> is
  refused by the store's \<open>UNIQUE\<close> constraint, and the handler answers \<open>Internal\<close>; an
  update of the identifier 7, which no user has, is answered \<open>Internal\<close> too.
\<close>

theorem duplicate_email_is_Internal:
  "fst (UserServer_CreateUser
          \<lparr>CreateUserRequest_Email = ''a@x.com'', CreateUserRequest_Name = ''Z''\<rparr> world1) =
     Inl (Status Internal
       (''failed to create user: failed to create user: failed to create user: '' @
        pg_text UniqueViolation)) \<and>
   fst (UserServer_UpdateUser
          \<lparr>UpdateUserRequest_Id = 7, UpdateUserRequest_Email = ''z@x.com'',
           UpdateUserRequest_Name = ''Z''\<rparr> world1) =
     Inl (Status Internal
       ''failed to update user: user not found: user not found: no rows in result set'')"
  by (simp add: UserServer_CreateUser_def UserService_CreateUser_def UserServer_UpdateUser_def
      UserService_UpdateUser_def repo_defs sql_insert_def time_Now_def faulted_def
      status_Errorf_def world1_def alice_def Let_def split: prod.splits)

subsection \<open>Empty strings, and the two readings of the clock\<close>

text \<open>
  C7 does not hold of the code. No handler and no service function looks at the email or
  the name, and the table's \<open>NOT NULL\<close> accepts the empty string: the create request with
  an empty email and an empty name succeeds, and the row is in the table afterwards.
\<close>

theorem CreateUser_accepts_empty_strings:
  "fst (UserServer_CreateUser
          \<lparr>CreateUserRequest_Email = [], CreateUserRequest_Name = []\<rparr> world1) =
     Inr \<lparr>pb_Id = 2, pb_Email = [], pb_Name = [], pb_CreatedAt = 0, pb_UpdatedAt = 0\<rparr> \<and>
   users (snd (UserServer_CreateUser
                 \<lparr>CreateUserRequest_Email = [], CreateUserRequest_Name = []\<rparr> world1)) =
     [alice, \<lparr>ID = 2, Email = [], Name = [], CreatedAt = 2000, UpdatedAt = 2000\<rparr>]"
  by (simp add: UserServer_CreateUser_def UserService_CreateUser_def repo_defs redis_defs
      sql_insert_def time_Now_def faulted_def pb_of_User_def Unix_def world1_def alice_def
      Let_def split: prod.splits)

text \<open>
  C9 does not hold of the code. \<open>CreateUser\<close> calls \<open>time.Now()\<close> once for \<open>CreatedAt\<close>
  and once more for \<open>UpdatedAt\<close>. In \<open>world1\<close> the clock moves by 5 nanoseconds between
  the two readings, and the user created has \<open>UpdatedAt\<close> 5 nanoseconds after \<open>CreatedAt\<close>.
\<close>

theorem CreateUser_reads_clock_twice:
  "fst (UserService_CreateUser ''b@x.com'' ''B'' world1) =
     Inr \<lparr>ID = 2, Email = ''b@x.com'', Name = ''B'', CreatedAt = 2000, UpdatedAt = 2005\<rparr> \<and>
   CreatedAt (projr (fst (UserService_CreateUser ''b@x.com'' ''B'' world1))) \<noteq>
     UpdatedAt (projr (fst (UserService_CreateUser ''b@x.com'' ''B'' world1)))"
  by (simp add: UserService_CreateUser_def repo_defs sql_insert_def time_Now_def faulted_def
      world1_def alice_def Let_def split: prod.splits)

section \<open>Further properties of the service\<close>

subsection \<open>Listing goes to the store only\<close>

text \<open>
  X1. \<open>ListUsers\<close> is not cached: it sends the cache no call and leaves its entries as
  they are, and the total it returns is the number of rows of the whole table, whatever
  the page.
\<close>

theorem ListUsers_bypasses_cache:
  "no_cache_effect w (snd (UserService_ListUsers page pageSize w)) \<and>
   (\<forall>us tot. fst (UserService_ListUsers page pageSize w) = Inr (us, tot) \<longrightarrow>
      tot = of_nat (length (users w)))"
proof -
  have "no_cache_effect w (snd (UserService_ListUsers page pageSize w))"
    by (auto simp: UserService_ListUsers_def repo_defs no_cache_effect_def cache_calls_def
        Let_def split: sum.splits)
  then show ?thesis
    using ListUsers_page [of page pageSize w] by blast
qed

theorem ListUsers_bypasses_cache_witness:
  "fst (UserService_ListUsers 2 2 world3) = Inr ([alice], 3) \<and>
   (3 :: go_int) = of_nat (length (users world3)) \<and>
   no_cache_effect world3 (snd (UserService_ListUsers 2 2 world3))"
proof -
  have r: "fst (UserService_ListUsers 2 2 world3) = Inr ([alice], 3)"
    by (simp add: UserService_ListUsers_def repo_defs sql_list_def faulted_def world3_def
        alice_def bob_def carol_def Let_def word_sless_alt)
  show ?thesis
    using ListUsers_bypasses_cache [where page = 2 and pageSize = 2 and w = world3] r by simp
qed

subsection \<open>What a read leaves in the cache\<close>

text \<open>
  X2. A hit is answered from the cache alone: when the cache answers the \<open>Get\<close> with a
  value that decodes, \<open>GetUser\<close> returns the decoded user and its only call is that
  \<open>Get\<close>; the store is not read and the entry, with its time-to-live, is not written again.
\<close>

theorem GetUser_hit_reads_cache_only:
  "cache_hit ident w = Some user \<longrightarrow>
     UserService_GetUser ident w =
       (Inr user,
        w\<lparr>cache_faults := drop 1 (cache_faults w),
          calls := calls w @ [CacheGet (Sprintf_user ident)]\<rparr>)"
  by (auto simp: UserService_GetUser_def cache_hit_def redis_defs Let_def
      split: option.splits if_splits)

theorem GetUser_hit_reads_cache_only_witness:
  "cache_hit 1 world_warm = Some alice \<and>
   UserService_GetUser 1 world_warm =
     (Inr alice, world_warm\<lparr>calls := calls world_warm @ [CacheGet ''user:1'']\<rparr>)"
proof -
  have m: "json_Marshal alice = Some alice_json"
    unfolding alice_def alice_json_def by code_simp
  have h: "cache_hit 1 world_warm = Some alice"
    using json_roundtrip [OF m]
    by (simp add: cache_hit_def world_warm_def faulted_def Sprintf_user_1)
  have "cache_faults world_warm = []"
    by (simp add: world_warm_def)
  then show ?thesis
    using GetUser_hit_reads_cache_only [where ident = 1 and w = world_warm and user = alice] h
    by (simp add: Sprintf_user_1)
qed

text \<open>
  X3. Not-found is never cached: when \<open>GetUser\<close> returns an error, the only call that
  went to the cache is the \<open>Get\<close> of the key, and the entries of the cache are unchanged.
\<close>

theorem GetUser_error_is_not_cached:
  "(\<exists>err. fst (UserService_GetUser ident w) = Inl err) \<longrightarrow>
     cache (snd (UserService_GetUser ident w)) = cache w \<and>
     cache_calls (calls (snd (UserService_GetUser ident w))) =
       cache_calls (calls w) @ [CacheGet (Sprintf_user ident)]"
  by (auto simp: UserService_GetUser_def repo_defs redis_defs cache_calls_def Let_def
      split: option.splits if_splits)

theorem GetUser_error_is_not_cached_witness:
  "fst (UserService_GetUser 7 world3) =
     Inl (Errorf ''user not found'' (Errorf ''user not found'' (Pg ErrNoRows))) \<and>
   cache (snd (UserService_GetUser 7 world3)) = cache world3 \<and>
   cache_calls (calls (snd (UserService_GetUser 7 world3))) = [CacheGet ''user:7'']"
proof -
  have key: "Sprintf_user 7 = ''user:7''"
    by code_simp
  have r: "fst (UserService_GetUser 7 world3) =
     Inl (Errorf ''user not found'' (Errorf ''user not found'' (Pg ErrNoRows)))"
    by (simp add: GetUser_result cache_hit_def repo_defs faulted_def world3_def alice_def
        bob_def carol_def Let_def)
  have "cache_calls (calls world3) = []"
    by (simp add: world3_def cache_calls_def)
  then show ?thesis
    using GetUser_error_is_not_cached [where ident = 7 and w = world3] r by (simp add: key)
qed

subsection \<open>A read after a write\<close>

lemma find_map_same_ID:
  assumes "\<And>r. ID (f r) = ID r"
  shows "find (\<lambda>u. ID u = ident) (map f us) = map_option f (find (\<lambda>u. ID u = ident) us)"
  using assms by (induction us) auto

lemma find_ID: "find (\<lambda>u. ID u = ident) us = Some user \<Longrightarrow> ID user = ident"
  by (auto simp: find_Some_iff)

text \<open>
  X4. The invalidation is done when \<open>UpdateUser\<close> returns: if an update succeeded and the
  cache answered the deletion of the per-id key, a \<open>GetUser\<close> of the same identifier that
  follows, and that the store answers, returns the updated row and not the snapshot from
  before the update: the user that \<open>UpdateUser\<close> returned, with the new email and name,
  and with its last-modified instant cut to the microsecond, as the table holds it.
\<close>

theorem GetUser_after_UpdateUser:
  assumes "UserService_UpdateUser ident email name w = (Inr user, w')"
    and "\<not> faulted (cache_faults w)" and "\<not> faulted (db_faults w')"
  shows "fst (UserService_GetUser ident w') =
           Inr (user\<lparr>UpdatedAt := pg_timestamptz (UpdatedAt user)\<rparr>) \<and>
         Email user = email \<and> Name user = name"
proof -
  have inv: "invalidated ident w w'"
    using UpdateUser_ok [OF assms(1)] .
  then have "cache w' (Sprintf_user ident) = None"
    using assms(2) by (simp add: invalidated_def)
  then have miss: "cache_hit ident w' = None"
    by (simp add: cache_hit_def)
  obtain user0 w1 where g: "UserRepository_GetByID ident w = (Inr user0, w1)"
    using assms(1) by (auto simp: UserService_UpdateUser_def split: prod.splits sum.splits)
  have u0: "find (\<lambda>u. ID u = ident) (users w) = Some user0"
    and w1: "users w1 = users w" "now w1 = now w"
    using g by (auto simp: repo_defs Let_def split: if_splits option.splits)
  let ?user = "user0\<lparr>Email := email, Name := name, UpdatedAt := now w\<rparr>"
  let ?w2 = "snd (time_Now w1)"
  have t: "time_Now w1 = (now w, ?w2)" "users ?w2 = users w"
    using w1 by (auto simp: time_Now_def split: list.splits)
  obtain w3 where up: "UserRepository_Update ?user ?w2 = (None, w3)"
    and user: "user = ?user"
    and w': "w' = snd (Redis_Delete ''users:list'' (snd (Redis_Delete (Sprintf_user ident) w3)))"
    using assms(1) g t(1)
    by (auto simp: UserService_UpdateUser_def Let_def split: prod.splits option.splits)
  have "sql_update ?user (users w) = Inr (users w3)"
    using up t(2) by (auto simp: repo_defs Let_def split: if_splits sum.splits)
  moreover have "users w' = users w3"
    by (simp add: w' redis_defs Let_def)
  ultimately have rows: "sql_update ?user (users w) = Inr (users w')"
    by simp
  have idu: "ID user0 = ident"
    using find_ID [OF u0] .
  let ?f = "\<lambda>r. if ID r = ident
                then r\<lparr>Email := email, Name := name, UpdatedAt := pg_timestamptz (now w)\<rparr>
                else r"
  have "sql_update ?user (users w) = Inr (map ?f (users w)) \<or>
        (\<exists>e. sql_update ?user (users w) = Inl e)"
    by (simp add: sql_update_def idu)
  then have "users w' = map ?f (users w)"
    using rows by auto
  then have "find (\<lambda>u. ID u = ident) (users w') = Some (?f user0)"
    using find_map_same_ID [of ?f ident "users w"] u0 by simp
  then have "find (\<lambda>u. ID u = ident) (users w') =
      Some (user\<lparr>UpdatedAt := pg_timestamptz (UpdatedAt user)\<rparr>)"
    using idu user by simp
  then have "fst (UserRepository_GetByID ident w') =
      Inr (user\<lparr>UpdatedAt := pg_timestamptz (UpdatedAt user)\<rparr>)"
    using assms(3) by (simp add: repo_defs Let_def)
  then show ?thesis
    using miss user by (simp add: GetUser_result)
qed

theorem GetUser_after_UpdateUser_witness:
  "fst (UserService_UpdateUser 1 ''b@x.com'' ''B'' (world_warm\<lparr>now := 2500\<rparr>)) =
     Inr (alice\<lparr>Email := ''b@x.com'', Name := ''B'', UpdatedAt := 2500\<rparr>) \<and>
   fst (UserService_GetUser 1
          (snd (UserService_UpdateUser 1 ''b@x.com'' ''B'' (world_warm\<lparr>now := 2500\<rparr>)))) =
     Inr (alice\<lparr>Email := ''b@x.com'', Name := ''B'', UpdatedAt := 2000\<rparr>)"
proof -
  let ?u = "alice\<lparr>Email := ''b@x.com'', Name := ''B'', UpdatedAt := 2500\<rparr>"
  let ?w = "world_warm\<lparr>now := 2500\<rparr>"
  let ?w' = "snd (UserService_UpdateUser 1 ''b@x.com'' ''B'' ?w)"
  have r: "fst (UserService_UpdateUser 1 ''b@x.com'' ''B'' ?w) = Inr ?u"
    by (simp add: UserService_UpdateUser_def repo_defs time_Now_def sql_update_def faulted_def
        world_warm_def alice_def Let_def split: prod.splits)
  then have e: "UserService_UpdateUser 1 ''b@x.com'' ''B'' ?w = (Inr ?u, ?w')"
    by (simp add: prod_eq_iff)
  have c: "\<not> faulted (cache_faults ?w)"
    by (simp add: faulted_def world_warm_def)
  have d: "\<not> faulted (db_faults ?w')"
    by (simp add: UserService_UpdateUser_def repo_defs redis_defs time_Now_def sql_update_def
        faulted_def world_warm_def alice_def Let_def split: prod.splits)
  show ?thesis
    using GetUser_after_UpdateUser [OF e c d] r by (simp add: pg_timestamptz_def)
qed

end
